theory Spec2Isabelle
  imports Complex_Main "HOL-Library.Char_ord" "HOL-Library.List_Lexorder"
    "HOL-Library.Log_Nat" "HOL-Library.Multiset" "HOL-Library.Sublist"
begin

section \<open>Data model\<close>

text \<open>
  The five functions of \<^verbatim>\<open>src/utils.py\<close> work on pandas DataFrames. A DataFrame is
  modelled column by column, as pandas stores it: an index (the row labels, whose length
  is \<^verbatim>\<open>len(dataframe)\<close>) and a list of named, typed columns. The dtype of a column
  fixes what its cells are: \<^verbatim>\<open>int64\<close> cells are integers and cannot be missing,
  \<^verbatim>\<open>float64\<close> cells are numbers or NaN, \<^verbatim>\<open>object\<close> and \<^verbatim>\<open>category\<close> cells are
  text or a missing marker (\<open>None\<close> is the missing cell).
\<close>

datatype coldata =
    Int64 "int list"
  | Float64 "real option list"
  | Object "string option list"
  | Category "string option list"

record column =
  name :: string
  data :: coldata

record dataframe =
  index :: "nat list"
  columns :: "column list"

datatype py_error = KeyError | ValueError

text \<open>
  Values of Python's \<^verbatim>\<open>float\<close> and numpy's \<^verbatim>\<open>float64\<close>: NaN, the two infinities
  and the finite numbers. A comparison with NaN on either side is false.
\<close>

datatype pyfloat = NaN | NegInf | Fin real | PosInf

fun pf_gt :: "pyfloat \<Rightarrow> pyfloat \<Rightarrow> bool" where
  "pf_gt NaN _ = False"
| "pf_gt _ NaN = False"
| "pf_gt NegInf _ = False"
| "pf_gt (Fin a) NegInf = True"
| "pf_gt (Fin a) (Fin b) = (a > b)"
| "pf_gt (Fin a) PosInf = False"
| "pf_gt PosInf PosInf = False"
| "pf_gt PosInf _ = True"

fun pf_ge :: "pyfloat \<Rightarrow> pyfloat \<Rightarrow> bool" where
  "pf_ge NaN _ = False"
| "pf_ge _ NaN = False"
| "pf_ge NegInf NegInf = True"
| "pf_ge NegInf _ = False"
| "pf_ge (Fin a) NegInf = True"
| "pf_ge (Fin a) (Fin b) = (a \<ge> b)"
| "pf_ge (Fin a) PosInf = False"
| "pf_ge PosInf _ = True"

definition pf_le :: "pyfloat \<Rightarrow> pyfloat \<Rightarrow> bool" where
  "pf_le a b = pf_ge b a"

definition pf_lt :: "pyfloat \<Rightarrow> pyfloat \<Rightarrow> bool" where
  "pf_lt a b = pf_gt b a"

fun pf_abs :: "pyfloat \<Rightarrow> pyfloat" where
  "pf_abs NaN = NaN"
| "pf_abs NegInf = PosInf"
| "pf_abs (Fin a) = Fin \<bar>a\<bar>"
| "pf_abs PosInf = PosInf"

subsection \<open>Arithmetic in float64\<close>

text \<open>
  A float64 is an IEEE 754 binary64 number: a multiple \<^verbatim>\<open>m * 2^(e - 52)\<close> of a power of two
  with \<^verbatim>\<open>m < 2^53\<close> and \<open>- 1022 \<le> e \<le> 1023\<close>. Every arithmetic operation returns the
  float64 nearest to the exact result, the one with an even \<open>m\<close> when two are equally
  near, and an infinity when that number is \<^verbatim>\<open>2^1024\<close> or more in absolute value.
\<close>

definition pow2 :: "int \<Rightarrow> real" where
  "pow2 e = (if 0 \<le> e then 2 ^ nat e else 1 / 2 ^ nat (- e))"

text \<open>The exponent of a positive number \<open>x\<close>: the \<open>e\<close> with \<^verbatim>\<open>2^e <= x < 2^(e + 1)\<close>.\<close>

definition ilog2 :: "real \<Rightarrow> int" where
  "ilog2 x = (if 1 \<le> x then bitlen \<lfloor>x\<rfloor> - 1 else - bitlen (\<lceil>1 / x\<rceil> - 1))"

definition round_half_even :: "real \<Rightarrow> int" where
  "round_half_even x =
     (let f = \<lfloor>x\<rfloor> in
      if x - of_int f < 1 / 2 then f
      else if 1 / 2 < x - of_int f then f + 1
      else if even f then f else f + 1)"

text \<open>
  The nearest number with a 53-bit significand; numbers below \<^verbatim>\<open>2^(-1022)\<close> are rounded
  to a multiple of \<^verbatim>\<open>2^(-1074)\<close>.
\<close>

definition f64_nearest :: "real \<Rightarrow> real" where
  "f64_nearest x =
     (if x = 0 then 0
      else
        let e = max (ilog2 \<bar>x\<bar>) (- 1022);
            q = pow2 (e - 52)
        in sgn x * of_int (round_half_even (\<bar>x\<bar> / q)) * q)"

definition f64_round :: "real \<Rightarrow> pyfloat" where
  "f64_round x =
     (let r = f64_nearest x in
      if pow2 1024 \<le> r then PosInf
      else if r \<le> - pow2 1024 then NegInf
      else Fin r)"

text \<open>
  \<^verbatim>\<open>total_missing / len(dataframe)\<close>: numpy's true division of an \<^verbatim>\<open>int64\<close> count by
  a length. Both are converted to float64 (exactly, below \<^verbatim>\<open>2^53\<close>) and the quotient is
  rounded. The division does not raise on a zero length: \<open>0 / 0\<close> is NaN and \<open>c / 0\<close>
  is infinite.
\<close>

definition pf_div_count :: "nat \<Rightarrow> nat \<Rightarrow> pyfloat" where
  "pf_div_count c n =
     (if n = 0 then (if c = 0 then NaN else PosInf)
      else f64_round (f64_nearest (real c) / f64_nearest (real n)))"

text \<open>\<^verbatim>\<open>... * 100\<close>: the product with 100, rounded.\<close>

fun pf_times100 :: "pyfloat \<Rightarrow> pyfloat" where
  "pf_times100 NaN = NaN"
| "pf_times100 NegInf = NegInf"
| "pf_times100 (Fin a) = f64_round (a * 100)"
| "pf_times100 PosInf = PosInf"

text \<open>The literal \<^verbatim>\<open>0.7\<close>, the default threshold: the float64 nearest to 7/10.\<close>

definition default_threshold :: pyfloat where
  "default_threshold = f64_round (7 / 10)"

subsection \<open>The pandas operations the functions call\<close>

definition len :: "dataframe \<Rightarrow> nat" where
  "len df = length (index df)"

definition column_names :: "dataframe \<Rightarrow> string list" where
  "column_names df = map name (columns df)"

fun col_len :: "coldata \<Rightarrow> nat" where
  "col_len (Int64 xs) = length xs"
| "col_len (Float64 xs) = length xs"
| "col_len (Object xs) = length xs"
| "col_len (Category xs) = length xs"

text \<open>\<^verbatim>\<open>isnull().sum()\<close> of one column: the number of missing cells.\<close>

fun null_count :: "coldata \<Rightarrow> nat" where
  "null_count (Int64 xs) = 0"
| "null_count (Float64 xs) = length (filter (\<lambda>v. v = None) xs)"
| "null_count (Object xs) = length (filter (\<lambda>v. v = None) xs)"
| "null_count (Category xs) = length (filter (\<lambda>v. v = None) xs)"

text \<open>
  \<^verbatim>\<open>dataframe.isnull().sum()\<close>: a Series, from each column name to its count, in
  column order.
\<close>

definition isnull_sum :: "dataframe \<Rightarrow> (string \<times> nat) list" where
  "isnull_sum df = map (\<lambda>c. (name c, null_count (data c))) (columns df)"

text \<open>
  A table in the sense of the specification: column names are unique and every column
  has one cell per row.
\<close>

definition wf_table :: "dataframe \<Rightarrow> bool" where
  "wf_table df \<longleftrightarrow>
     distinct (column_names df) \<and>
     list_all (\<lambda>c. col_len (data c) = len df) (columns df)"

text \<open>
  \<^verbatim>\<open>dataframe.drop(columns=labels)\<close>: a new DataFrame without the columns named in
  \<open>labels\<close>; a label that names no column raises KeyError.
\<close>

definition drop :: "dataframe \<Rightarrow> string set \<Rightarrow> py_error + dataframe" where
  "drop df labels =
     (if labels \<subseteq> set (column_names df)
      then Inr (df\<lparr>columns := filter (\<lambda>c. name c \<notin> labels) (columns df)\<rparr>)
      else Inl KeyError)"

section \<open>find_missing_values\<close>

datatype missing_result =
    Message string
  | Report "(string \<times> nat \<times> pyfloat) list"

definition percent_missing :: "dataframe \<Rightarrow> (string \<times> pyfloat) list" where
  "percent_missing df =
     map (\<lambda>(n, c). (n, pf_times100 (pf_div_count c (len df)))) (isnull_sum df)"

text \<open>
  \<^verbatim>\<open>pd.concat([total_missing, percent_missing], axis=1, keys=["Total", "Percentage"])\<close>
  puts the two Series, which have the same labels in the same order, side by side: one
  row per column of the DataFrame.
\<close>

definition concat_total_percentage ::
  "(string \<times> nat) list \<Rightarrow> (string \<times> pyfloat) list \<Rightarrow> (string \<times> nat \<times> pyfloat) list" where
  "concat_total_percentage ts ps = map (\<lambda>((n, c), (_, p)). (n, c, p)) (zip ts ps)"

definition find_missing_values :: "dataframe \<Rightarrow> missing_result" where
  "find_missing_values df =
     (let total_missing = isnull_sum df in
      if sum_list (map snd total_missing) = 0
      then Message ''There are no missing values in the DataFrame.''
      else
        let missing_values_df = concat_total_percentage total_missing (percent_missing df)
        in Report (filter (\<lambda>(n, total, p). total > 0) missing_values_df))"

text \<open>A column has a missing cell; integer columns never have one.\<close>

fun has_missing :: "coldata \<Rightarrow> bool" where
  "has_missing (Int64 xs) = False"
| "has_missing (Float64 xs) = (None \<in> set xs)"
| "has_missing (Object xs) = (None \<in> set xs)"
| "has_missing (Category xs) = (None \<in> set xs)"

text \<open>The row of the report for one column: its name, Total and Percentage.\<close>

definition missing_row :: "dataframe \<Rightarrow> column \<Rightarrow> string \<times> nat \<times> pyfloat" where
  "missing_row df c =
     (name c, null_count (data c), pf_times100 (pf_div_count (null_count (data c)) (len df)))"

definition example_missing :: dataframe where
  "example_missing =
     \<lparr>index = [0, 1, 2, 3],
      columns =
        [\<lparr>name = ''A'', data = Float64 [Some 1, Some 2, None, Some 4]\<rparr>,
         \<lparr>name = ''B'', data = Object [Some ''x'', Some ''y'', Some ''x'', Some ''z'']\<rparr>]\<rparr>"

section \<open>drop_columns_with_high_missing_values\<close>

text \<open>
  \<^verbatim>\<open>percent_missing[percent_missing > threshold].index\<close>: the names whose percentage
  compares greater than the threshold, in column order.
\<close>

definition columns_to_drop :: "dataframe \<Rightarrow> pyfloat \<Rightarrow> string list" where
  "columns_to_drop df threshold =
     map fst (filter (\<lambda>(n, p). pf_gt p threshold) (percent_missing df))"

definition drop_columns_with_high_missing_values ::
  "dataframe \<Rightarrow> pyfloat \<Rightarrow> py_error + dataframe" where
  "drop_columns_with_high_missing_values df threshold =
     drop df (set (columns_to_drop df threshold))"

text \<open>The percentage the function computes for one column.\<close>

definition missing_percentage :: "dataframe \<Rightarrow> column \<Rightarrow> pyfloat" where
  "missing_percentage df c = pf_times100 (pf_div_count (null_count (data c)) (len df))"

definition example_zero_rows :: dataframe where
  "example_zero_rows = \<lparr>index = [], columns = [\<lparr>name = ''A'', data = Float64 []\<rparr>]\<rparr>"

text \<open>A table with two rows and no column.\<close>

definition example_zero_columns :: dataframe where
  "example_zero_columns = \<lparr>index = [0, 1], columns = []\<rparr>"

text \<open>A table with twenty rows and one column, eleven of whose cells are missing.\<close>

definition example_eleven_of_twenty :: dataframe where
  "example_eleven_of_twenty =
     \<lparr>index = [0, 1, 2, 3, 4, 5, 6, 7, 8, 9, 10, 11, 12, 13, 14, 15, 16, 17, 18, 19],
      columns =
        [\<lparr>name = ''A'',
          data = Float64 [None, None, None, None, None, None, None, None, None, None, None,
                   Some 1, Some 2, Some 3, Some 4, Some 5, Some 6, Some 7, Some 8, Some 9]\<rparr>]\<rparr>"

section \<open>separate_categorical_numerical\<close>

datatype dtype = dt_int64 | dt_float64 | dt_object | dt_category

fun dtype_of :: "coldata \<Rightarrow> dtype" where
  "dtype_of (Int64 xs) = dt_int64"
| "dtype_of (Float64 xs) = dt_float64"
| "dtype_of (Object xs) = dt_object"
| "dtype_of (Category xs) = dt_category"

text \<open>
  \<^verbatim>\<open>select_dtypes(include=...)\<close> and \<^verbatim>\<open>select_dtypes(exclude=...)\<close>: a new DataFrame
  with the same index and the columns whose dtype is, or is not, in the list.
\<close>

definition select_dtypes_include :: "dataframe \<Rightarrow> dtype list \<Rightarrow> dataframe" where
  "select_dtypes_include df dts =
     df\<lparr>columns := filter (\<lambda>c. dtype_of (data c) \<in> set dts) (columns df)\<rparr>"

definition select_dtypes_exclude :: "dataframe \<Rightarrow> dtype list \<Rightarrow> dataframe" where
  "select_dtypes_exclude df dts =
     df\<lparr>columns := filter (\<lambda>c. dtype_of (data c) \<notin> set dts) (columns df)\<rparr>"

definition separate_categorical_numerical :: "dataframe \<Rightarrow> dataframe \<times> dataframe" where
  "separate_categorical_numerical df =
     (let categorical_columns = select_dtypes_include df [dt_object, dt_category];
          numerical_columns = select_dtypes_exclude df [dt_object, dt_category]
      in (categorical_columns, numerical_columns))"

section \<open>label_encode_categorical_variables\<close>

text \<open>
  scikit-learn's \<^verbatim>\<open>LabelEncoder.fit_transform\<close>: the classes are the distinct values
  in sorted order, with the missing value (when there is one) after them; every cell is
  replaced by the position of its value among the classes.
\<close>

definition classes_of :: "('a::linorder) option list \<Rightarrow> 'a list" where
  "classes_of vs = sort (remdups (map the (filter (\<lambda>v. v \<noteq> None) vs)))"

fun index_of :: "'a list \<Rightarrow> 'a \<Rightarrow> nat" where
  "index_of [] x = 0"
| "index_of (y # ys) x = (if x = y then 0 else Suc (index_of ys x))"

definition code_of :: "('a::linorder) list \<Rightarrow> 'a option \<Rightarrow> int" where
  "code_of classes v =
     (case v of Some x \<Rightarrow> int (index_of classes x) | None \<Rightarrow> int (length classes))"

definition encode :: "('a::linorder) option list \<Rightarrow> int list" where
  "encode vs = map (code_of (classes_of vs)) vs"

text \<open>
  The codes come back as an \<^verbatim>\<open>int64\<close> array. For the cells of an \<^verbatim>\<open>object\<close> or
  \<^verbatim>\<open>category\<close> column the encoder builds the array from the list of the codes, and
  numpy gives the array of an empty list the dtype \<^verbatim>\<open>float64\<close>: such a column without
  cells comes back as a \<^verbatim>\<open>float64\<close> column without cells.
\<close>

fun fit_transform :: "coldata \<Rightarrow> coldata" where
  "fit_transform (Int64 xs) = Int64 (encode (map Some xs))"
| "fit_transform (Float64 xs) = Int64 (encode xs)"
| "fit_transform (Object xs) = (if xs = [] then Float64 [] else Int64 (encode xs))"
| "fit_transform (Category xs) = (if xs = [] then Float64 [] else Int64 (encode xs))"

text \<open>\<^verbatim>\<open>dataframe.copy()\<close>: an independent DataFrame with the same content.\<close>

definition copy :: "dataframe \<Rightarrow> dataframe" where
  "copy df = df"

text \<open>
  \<^verbatim>\<open>encoded_dataframe[column]\<close> as the encoder receives it: the column's cells. A name
  that is no column raises KeyError; a name that several columns share selects a
  two-dimensional frame, which the encoder refuses with ValueError.
\<close>

definition getitem :: "dataframe \<Rightarrow> string \<Rightarrow> py_error + coldata" where
  "getitem df col =
     (case filter (\<lambda>c. name c = col) (columns df) of
        [] \<Rightarrow> Inl KeyError
      | [c] \<Rightarrow> Inr (data c)
      | _ \<Rightarrow> Inl ValueError)"

text \<open>
  \<^verbatim>\<open>encoded_dataframe[column] = values\<close>: the named column keeps its place and gets
  the new cells; a new name is appended as a new column.
\<close>

definition setitem :: "dataframe \<Rightarrow> string \<Rightarrow> coldata \<Rightarrow> dataframe" where
  "setitem df col vals =
     (if col \<in> set (column_names df)
      then df\<lparr>columns := map (\<lambda>c. if name c = col then c\<lparr>data := vals\<rparr> else c) (columns df)\<rparr>
      else df\<lparr>columns := columns df @ [\<lparr>name = col, data = vals\<rparr>]\<rparr>)"

fun encode_columns :: "dataframe \<Rightarrow> string list \<Rightarrow> py_error + dataframe" where
  "encode_columns encoded_dataframe [] = Inr encoded_dataframe"
| "encode_columns encoded_dataframe (column # rest) =
     (if column \<in> set (column_names encoded_dataframe)
      then (case getitem encoded_dataframe column of
              Inl e \<Rightarrow> Inl e
            | Inr series \<Rightarrow>
                encode_columns (setitem encoded_dataframe column (fit_transform series)) rest)
      else encode_columns encoded_dataframe rest)"

definition label_encode_categorical_variables ::
  "dataframe \<Rightarrow> string list \<Rightarrow> py_error + dataframe" where
  "label_encode_categorical_variables df categorical_columns =
     (let encoded_dataframe = copy df
      in encode_columns encoded_dataframe categorical_columns)"

text \<open>
  What a label encoding of a column is: one code per cell; equal cells have equal codes
  and different cells different codes; the codes follow the order of the values, a
  missing cell coming after every value; and the codes are the numbers from zero up to
  the number of distinct cells.
\<close>

fun opt_less :: "('a::linorder) option \<Rightarrow> 'a option \<Rightarrow> bool" where
  "opt_less (Some x) (Some y) = (x < y)"
| "opt_less (Some x) None = True"
| "opt_less None _ = False"

definition is_label_encoding :: "('a::linorder) option list \<Rightarrow> int list \<Rightarrow> bool" where
  "is_label_encoding vs ks \<longleftrightarrow>
     length ks = length vs
     \<and> (\<forall>i < length vs. \<forall>j < length vs.
           (ks ! i = ks ! j \<longleftrightarrow> vs ! i = vs ! j)
           \<and> (ks ! i < ks ! j \<longleftrightarrow> opt_less (vs ! i) (vs ! j)))
     \<and> set ks = int ` {0..<card (set vs)}"

text \<open>
  A column holds a label encoding of another: its cells are integer codes and are a label
  encoding of the other's cells; or neither column has a cell.
\<close>

fun encoded_by :: "coldata \<Rightarrow> coldata \<Rightarrow> bool" where
  "encoded_by (Int64 xs) (Int64 ks) = is_label_encoding (map Some xs) ks"
| "encoded_by (Float64 xs) (Int64 ks) = is_label_encoding xs ks"
| "encoded_by (Object xs) (Int64 ks) = is_label_encoding xs ks"
| "encoded_by (Category xs) (Int64 ks) = is_label_encoding xs ks"
| "encoded_by d (Float64 ks) = (col_len d = 0 \<and> ks = [])"
| "encoded_by _ _ = False"

text \<open>
  A column after the loop over a list of names: encoded once for every occurrence of its
  name in the list.
\<close>

definition encode_named :: "string list \<Rightarrow> column \<Rightarrow> column" where
  "encode_named L c = c\<lparr>data := (fit_transform ^^ count_list L (name c)) (data c)\<rparr>"

section \<open>drop_highly_correlated_variables\<close>

text \<open>
  A square frame whose rows and columns carry the same labels, such as the correlation
  matrix and the boolean mask made from it: \<open>entry f r c\<close> is the cell in row \<open>r\<close>
  of column \<open>c\<close>.
\<close>

record 'a frame =
  labels :: "string list"
  entry :: "string \<Rightarrow> string \<Rightarrow> 'a"

definition frame_abs :: "pyfloat frame \<Rightarrow> pyfloat frame" where
  "frame_abs m = m\<lparr>entry := (\<lambda>r c. pf_abs (entry m r c))\<rparr>"

definition frame_ge :: "pyfloat frame \<Rightarrow> pyfloat \<Rightarrow> bool frame" where
  "frame_ge m threshold = \<lparr>labels = labels m, entry = (\<lambda>r c. pf_ge (entry m r c) threshold)\<rparr>"

text \<open>
  \<^verbatim>\<open>mask.columns[mask[col]]\<close>: the labels at which column \<open>col\<close> of the mask is
  true.
\<close>

definition correlated_columns :: "bool frame \<Rightarrow> string \<Rightarrow> string list" where
  "correlated_columns mask' col = filter (\<lambda>r. entry mask' r col) (labels mask')"

fun add_correlated :: "string \<Rightarrow> string list \<Rightarrow> string set \<Rightarrow> string set" where
  "add_correlated col [] high_corr_vars = high_corr_vars"
| "add_correlated col (col2 # rest) high_corr_vars =
     add_correlated col rest
       (if col \<noteq> col2 then insert col2 high_corr_vars else high_corr_vars)"

fun find_high_corr_vars :: "bool frame \<Rightarrow> string list \<Rightarrow> string set \<Rightarrow> string set" where
  "find_high_corr_vars mask' [] high_corr_vars = high_corr_vars"
| "find_high_corr_vars mask' (col # rest) high_corr_vars =
     find_high_corr_vars mask' rest
       (add_correlated col (correlated_columns mask' col) high_corr_vars)"

text \<open>
  The correlation matrix comes from pandas (\<^verbatim>\<open>dataframe.corr()\<close>), which is not part
  of this repository: the function takes it as the parameter \<open>corr\<close>, which may raise.
\<close>

definition drop_highly_correlated_variables ::
  "(dataframe \<Rightarrow> py_error + pyfloat frame) \<Rightarrow> dataframe \<Rightarrow> pyfloat \<Rightarrow> py_error + dataframe" where
  "drop_highly_correlated_variables corr df threshold =
     (case corr df of
        Inl e \<Rightarrow> Inl e
      | Inr m \<Rightarrow>
          let corr_matrix = frame_abs m;
              mask' = frame_ge corr_matrix threshold;
              high_corr_vars = find_high_corr_vars mask' (labels mask') {}
          in drop df high_corr_vars)"

subsection \<open>The correlation matrix of pandas, in exact arithmetic\<close>

text \<open>
  \<^verbatim>\<open>DataFrame.corr()\<close> computes Pearson's coefficient of every pair of columns over the
  rows where both cells are present. With no such row, or with a zero divisor (a constant
  column), the entry is NaN. The cells are first converted to floats: a missing cell
  becomes NaN, and a text cell (taken not to read as a number) raises ValueError, as
  pandas does from version 2.0 on.
\<close>

fun has_text :: "coldata \<Rightarrow> bool" where
  "has_text (Int64 xs) = False"
| "has_text (Float64 xs) = False"
| "has_text (Object xs) = list_ex (\<lambda>v. v \<noteq> None) xs"
| "has_text (Category xs) = list_ex (\<lambda>v. v \<noteq> None) xs"

fun as_float :: "coldata \<Rightarrow> real option list" where
  "as_float (Int64 xs) = map (\<lambda>x. Some (real_of_int x)) xs"
| "as_float (Float64 xs) = xs"
| "as_float (Object xs) = map (\<lambda>x. None) xs"
| "as_float (Category xs) = map (\<lambda>x. None) xs"

definition complete_pairs :: "real option list \<Rightarrow> real option list \<Rightarrow> (real \<times> real) list" where
  "complete_pairs xs ys =
     map (\<lambda>(a, b). (the a, the b)) (filter (\<lambda>(a, b). a \<noteq> None \<and> b \<noteq> None) (zip xs ys))"

definition mean :: "real list \<Rightarrow> real" where
  "mean xs = sum_list xs / real (length xs)"

definition pearson :: "real option list \<Rightarrow> real option list \<Rightarrow> pyfloat" where
  "pearson xs ys =
     (let ps = complete_pairs xs ys in
      if ps = [] then NaN
      else
        let meanx = mean (map fst ps);
            meany = mean (map snd ps);
            covxy = sum_list (map (\<lambda>(x, y). (x - meanx) * (y - meany)) ps);
            ssqdm_x = sum_list (map (\<lambda>(x, y). (x - meanx) * (x - meanx)) ps);
            ssqdm_y = sum_list (map (\<lambda>(x, y). (y - meany) * (y - meany)) ps);
            divisor = sqrt (ssqdm_x * ssqdm_y)
        in if divisor \<noteq> 0 then Fin (max (- 1) (min 1 (covxy / divisor))) else NaN)"

definition numeric_column :: "dataframe \<Rightarrow> string \<Rightarrow> real option list" where
  "numeric_column df n =
     (case filter (\<lambda>c. name c = n) (columns df) of [] \<Rightarrow> [] | c # _ \<Rightarrow> as_float (data c))"

definition pandas_corr :: "dataframe \<Rightarrow> py_error + pyfloat frame" where
  "pandas_corr df =
     (if list_all (\<lambda>c. \<not> has_text (data c)) (columns df)
      then Inr \<lparr>labels = column_names df,
                entry = (\<lambda>r c. pearson (numeric_column df r) (numeric_column df c))\<rparr>
      else Inl ValueError)"

text \<open>
  A column is marked when the mask pairs it with another label: this is what the two
  loops compute.
\<close>

definition marked :: "pyfloat frame \<Rightarrow> pyfloat \<Rightarrow> string \<Rightarrow> bool" where
  "marked m threshold b \<longleftrightarrow>
     b \<in> set (labels m) \<and>
     (\<exists>a \<in> set (labels m). a \<noteq> b \<and> pf_ge (pf_abs (entry m b a)) threshold)"

definition symmetric :: "'a frame \<Rightarrow> bool" where
  "symmetric m \<longleftrightarrow> (\<forall>r \<in> set (labels m). \<forall>c \<in> set (labels m). entry m r c = entry m c r)"

definition example_corr :: dataframe where
  "example_corr =
     \<lparr>index = [0, 1, 2, 3],
      columns = [\<lparr>name = ''A'', data = Int64 [1, 2, 3, 4]\<rparr>,
                 \<lparr>name = ''B'', data = Int64 [2, 4, 6, 8]\<rparr>]\<rparr>"

definition example_constant :: dataframe where
  "example_constant =
     \<lparr>index = [0, 1, 2],
      columns = [\<lparr>name = ''A'', data = Int64 [1, 1, 1]\<rparr>,
                 \<lparr>name = ''B'', data = Int64 [1, 2, 3]\<rparr>]\<rparr>"

text \<open>The correlation matrix of \<open>example_corr\<close>.\<close>

definition example_corr_matrix :: "pyfloat frame" where
  "example_corr_matrix =
     \<lparr>labels = [''A'', ''B''],
      entry = (\<lambda>r c. pearson (numeric_column example_corr r) (numeric_column example_corr c))\<rparr>"

definition example_constant_matrix :: "pyfloat frame" where
  "example_constant_matrix =
     \<lparr>labels = [''A'', ''B''],
      entry = (\<lambda>r c. pearson (numeric_column example_constant r)
                         (numeric_column example_constant c))\<rparr>"

section \<open>The functions on DataFrame objects\<close>

text \<open>
  The caller and the function share the DataFrame object the caller passes. To say what
  a call does to that object, the functions are written a second time over a heap of
  DataFrame objects, a reference being a position in the heap. The pandas calls that read
  a DataFrame and return a new one (\<^verbatim>\<open>drop\<close>, \<^verbatim>\<open>select_dtypes\<close>, \<^verbatim>\<open>copy\<close>) put
  their result into a new object; item assignment writes into the object it is applied
  to. An exception leaves the heap as it is at the raise.
\<close>

type_synonym heap = "dataframe list"

definition alloc :: "heap \<Rightarrow> dataframe \<Rightarrow> nat \<times> heap" where
  "alloc h df = (length h, h @ [df])"

definition drop_h :: "heap \<Rightarrow> nat \<Rightarrow> string set \<Rightarrow> (py_error + nat) \<times> heap" where
  "drop_h h r labs =
     (case drop (h ! r) labs of
        Inl e \<Rightarrow> (Inl e, h)
      | Inr d \<Rightarrow> (case alloc h d of (r', h') \<Rightarrow> (Inr r', h')))"

definition copy_h :: "heap \<Rightarrow> nat \<Rightarrow> nat \<times> heap" where
  "copy_h h r = alloc h (copy (h ! r))"

definition setitem_h :: "heap \<Rightarrow> nat \<Rightarrow> string \<Rightarrow> coldata \<Rightarrow> heap" where
  "setitem_h h r col vals = h[r := setitem (h ! r) col vals]"

definition find_missing_values_h :: "heap \<Rightarrow> nat \<Rightarrow> missing_result \<times> heap" where
  "find_missing_values_h h dataframe = (find_missing_values (h ! dataframe), h)"

text \<open>
  \<^verbatim>\<open>dataframe = dataframe.drop(columns=columns_to_drop)\<close> binds the local name to the
  new object, which is returned.
\<close>

definition drop_columns_with_high_missing_values_h ::
  "heap \<Rightarrow> nat \<Rightarrow> pyfloat \<Rightarrow> (py_error + nat) \<times> heap" where
  "drop_columns_with_high_missing_values_h h dataframe threshold =
     drop_h h dataframe (set (columns_to_drop (h ! dataframe) threshold))"

definition separate_categorical_numerical_h :: "heap \<Rightarrow> nat \<Rightarrow> (nat \<times> nat) \<times> heap" where
  "separate_categorical_numerical_h h dataframe =
     (case alloc h (select_dtypes_include (h ! dataframe) [dt_object, dt_category]) of
        (categorical_columns, h1) \<Rightarrow>
          (case alloc h1 (select_dtypes_exclude (h1 ! dataframe) [dt_object, dt_category]) of
             (numerical_columns, h2) \<Rightarrow> ((categorical_columns, numerical_columns), h2)))"

fun encode_columns_h :: "heap \<Rightarrow> nat \<Rightarrow> string list \<Rightarrow> (py_error + nat) \<times> heap" where
  "encode_columns_h h encoded_dataframe [] = (Inr encoded_dataframe, h)"
| "encode_columns_h h encoded_dataframe (column # rest) =
     (if column \<in> set (column_names (h ! encoded_dataframe))
      then (case getitem (h ! encoded_dataframe) column of
              Inl e \<Rightarrow> (Inl e, h)
            | Inr series \<Rightarrow>
                encode_columns_h
                  (setitem_h h encoded_dataframe column (fit_transform series))
                  encoded_dataframe rest)
      else encode_columns_h h encoded_dataframe rest)"

definition label_encode_categorical_variables_h ::
  "heap \<Rightarrow> nat \<Rightarrow> string list \<Rightarrow> (py_error + nat) \<times> heap" where
  "label_encode_categorical_variables_h h dataframe categorical_columns =
     (case copy_h h dataframe of
        (encoded_dataframe, h1) \<Rightarrow> encode_columns_h h1 encoded_dataframe categorical_columns)"

definition drop_highly_correlated_variables_h ::
  "(dataframe \<Rightarrow> py_error + pyfloat frame) \<Rightarrow> heap \<Rightarrow> nat \<Rightarrow> pyfloat
     \<Rightarrow> (py_error + nat) \<times> heap" where
  "drop_highly_correlated_variables_h corr h dataframe threshold =
     (case corr (h ! dataframe) of
        Inl e \<Rightarrow> (Inl e, h)
      | Inr m \<Rightarrow>
          let corr_matrix = frame_abs m;
              mask' = frame_ge corr_matrix threshold;
              high_corr_vars = find_high_corr_vars mask' (labels mask') {}
          in drop_h h dataframe high_corr_vars)"

text \<open>The table a call returns: the object its reference points to in the new heap.\<close>

definition deref :: "(py_error + nat) \<times> heap \<Rightarrow> py_error + dataframe" where
  "deref res = (case fst res of Inl e \<Rightarrow> Inl e | Inr r \<Rightarrow> Inr (snd res ! r))"

section \<open>Properties of the float64 arithmetic\<close>

lemmas f64_eval =
  f64_round_def f64_nearest_def ilog2_def pow2_def round_half_even_def compute_bitlen Let_def

lemma f64_round_not_NaN: "f64_round x \<noteq> NaN"
  by (simp add: f64_round_def Let_def)

lemma pf_times100_NaN_iff: "pf_times100 p = NaN \<longleftrightarrow> p = NaN"
  by (cases p) (simp_all add: f64_round_not_NaN)

lemma pf_div_count_NaN_iff: "pf_div_count c n = NaN \<longleftrightarrow> c = 0 \<and> n = 0"
  by (simp add: pf_div_count_def f64_round_not_NaN)

text \<open>
  One missing cell in four is exactly 25 percent. Seven in a hundred and eleven in
  twenty are not exactly 7 and 55 percent: the quotients 0.07 and 0.55 are rounded, and
  so are their products with 100, which Python prints as \<^verbatim>\<open>7.000000000000001\<close> and
  \<^verbatim>\<open>55.00000000000001\<close>.
\<close>

lemma percent_0_of_4: "pf_times100 (pf_div_count 0 4) = Fin 0"
  by (simp add: pf_div_count_def f64_eval)

lemma percent_1_of_4: "pf_times100 (pf_div_count 1 4) = Fin 25"
  by (simp add: pf_div_count_def f64_eval)

lemma percent_7_of_100: "pf_times100 (pf_div_count 7 100) = Fin (7 + 1 / 2 ^ 50)"
  by (simp add: pf_div_count_def f64_eval)

lemma percent_11_of_20: "pf_times100 (pf_div_count 11 20) = Fin (55 + 1 / 2 ^ 47)"
  by (simp add: pf_div_count_def f64_eval)

lemma default_threshold_eq: "default_threshold = Fin (6305039478318694 / 2 ^ 53)"
  by (simp add: default_threshold_def f64_eval)

text \<open>
  Rounding at work: one third has no finite binary expansion; of two equally near
  float64 the one with the even significand is taken; the largest float64 is
  \<^verbatim>\<open>2^1024 - 2^971\<close>, and from half a step above it the result is infinite.
\<close>

lemma f64_round_third: "f64_round (1 / 3) = Fin (6004799503160661 / 2 ^ 54)"
  by (simp add: f64_eval)

lemma f64_round_ties_to_even:
  "f64_round (2 ^ 53 + 1) = Fin (2 ^ 53)"
  "f64_round (2 ^ 53 + 3) = Fin (2 ^ 53 + 4)"
  by (simp_all add: f64_eval)

lemma f64_round_overflow:
  "f64_round (2 ^ 1024 - 2 ^ 970 - 1) = Fin (2 ^ 1024 - 2 ^ 971)"
  "f64_round (2 ^ 1024 - 2 ^ 970) = PosInf"
  by (simp_all add: f64_eval)

section \<open>Properties of find_missing_values\<close>

lemma filter_None_empty_iff: "filter (\<lambda>v. v = None) xs = [] \<longleftrightarrow> None \<notin> set xs"
  by (induction xs) auto

lemma null_count_zero_iff: "null_count d = 0 \<longleftrightarrow> \<not> has_missing d"
  by (cases d) (simp_all add: filter_None_empty_iff)

lemma sum_isnull_zero_iff:
  "sum_list (map snd (isnull_sum df)) = 0 \<longleftrightarrow> (\<forall>c \<in> set (columns df). \<not> has_missing (data c))"
  by (simp add: isnull_sum_def o_def null_count_zero_iff)

lemma concat_rows:
  "concat_total_percentage (isnull_sum df) (percent_missing df) = map (missing_row df) (columns df)"
  by (simp add: concat_total_percentage_def percent_missing_def isnull_sum_def zip_map_map
       zip_same_conv_map missing_row_def o_def split_def)

lemma filter_rows:
  "filter (\<lambda>(n, total, p). total > 0) (map (missing_row df) cs)
   = map (missing_row df) (filter (\<lambda>c. null_count (data c) > 0) cs)"
  by (induction cs) (auto simp: missing_row_def)

lemma find_missing_values_example:
  "find_missing_values example_missing = Report [(''A'', 1, Fin 25)]"
  by (simp add: find_missing_values_def example_missing_def isnull_sum_def percent_missing_def
     concat_total_percentage_def len_def pf_div_count_def f64_eval)

text \<open>
  Claim C5. \<open>find_missing_values\<close> returns the message "no missing values" exactly when
  no cell of the table is missing. Otherwise it returns a report with one row for every
  column that has a missing cell, in column order, holding the column's name, its count of
  missing cells and the percentage \<open>count / len \<times> 100\<close> as float64 computes it: the
  quotient of the count by the number of rows, rounded, times 100, rounded (seven missing
  cells in a hundred rows give \<^verbatim>\<open>7.000000000000001\<close>, lemma \<open>percent_7_of_100\<close>). For
  the table with \<open>A = [1, 2, missing, 4]\<close> and \<open>B = [x, y, x, z]\<close> the report is
  \<open>{A: (1, 25.0)}\<close>.
\<close>

theorem find_missing_values_report:
  "(find_missing_values df = Message ''There are no missing values in the DataFrame.''
      \<longleftrightarrow> (\<forall>c \<in> set (columns df). \<not> has_missing (data c)))
   \<and> ((\<exists>c \<in> set (columns df). has_missing (data c)) \<longrightarrow>
        find_missing_values df =
          Report (map (missing_row df) (filter (\<lambda>c. null_count (data c) > 0) (columns df))))
   \<and> find_missing_values example_missing = Report [(''A'', 1, Fin 25)]"
proof (intro conjI impI)
  show "find_missing_values df = Message ''There are no missing values in the DataFrame.''
      \<longleftrightarrow> (\<forall>c \<in> set (columns df). \<not> has_missing (data c))"
    using sum_isnull_zero_iff[of df] by (simp add: find_missing_values_def Let_def)
next
  assume "\<exists>c \<in> set (columns df). has_missing (data c)"
  then have "sum_list (map snd (isnull_sum df)) \<noteq> 0"
    using sum_isnull_zero_iff[of df] by blast
  then show "find_missing_values df =
          Report (map (missing_row df) (filter (\<lambda>c. null_count (data c) > 0) (columns df)))"
    by (simp add: find_missing_values_def Let_def concat_rows filter_rows)
next
  show "find_missing_values example_missing = Report [(''A'', 1, Fin 25)]"
    by (rule find_missing_values_example)
qed

theorem find_missing_values_report_witness:
  "(\<exists>c \<in> set (columns example_missing). has_missing (data c))
   \<and> find_missing_values example_missing =
       Report (map (missing_row example_missing)
                 (filter (\<lambda>c. null_count (data c) > 0) (columns example_missing)))
   \<and> find_missing_values example_missing
       \<noteq> Message ''There are no missing values in the DataFrame.''"
  using find_missing_values_report[of example_missing]
  by (simp add: example_missing_def)

section \<open>Properties of drop_highly_correlated_variables\<close>

lemma add_correlated_eq:
  "add_correlated col cs hv = hv \<union> {c \<in> set cs. c \<noteq> col}"
  by (induction cs arbitrary: hv) auto

lemma find_high_corr_vars_eq:
  "find_high_corr_vars mk cols hv =
     hv \<union> {b. \<exists>col \<in> set cols. b \<in> set (correlated_columns mk col) \<and> b \<noteq> col}"
  by (induction cols arbitrary: hv) (auto simp: add_correlated_eq)

lemma labels_mask: "labels (frame_ge (frame_abs m) t) = labels m"
  by (simp add: frame_ge_def frame_abs_def)

lemma entry_mask: "entry (frame_ge (frame_abs m) t) r c = pf_ge (pf_abs (entry m r c)) t"
  by (simp add: frame_ge_def frame_abs_def)

lemma correlated_columns_mask:
  "set (correlated_columns (frame_ge (frame_abs m) t) col)
     = {r \<in> set (labels m). pf_ge (pf_abs (entry m r col)) t}"
  by (simp add: correlated_columns_def labels_mask entry_mask)

lemma marked_iff:
  "(\<exists>col \<in> set (labels m). b \<in> set (correlated_columns (frame_ge (frame_abs m) t) col) \<and> b \<noteq> col)
      \<longleftrightarrow> marked m t b"
proof
  assume "\<exists>col \<in> set (labels m). b \<in> set (correlated_columns (frame_ge (frame_abs m) t) col) \<and> b \<noteq> col"
  then obtain col where c: "col \<in> set (labels m)" "b \<in> set (labels m)"
      "pf_ge (pf_abs (entry m b col)) t" "b \<noteq> col"
    by (auto simp: correlated_columns_mask)
  then have "col \<noteq> b" by simp
  with c show "marked m t b" unfolding marked_def by blast
next
  assume "marked m t b"
  then obtain a where a: "b \<in> set (labels m)" "a \<in> set (labels m)" "a \<noteq> b"
      "pf_ge (pf_abs (entry m b a)) t"
    unfolding marked_def by blast
  then have "b \<in> set (correlated_columns (frame_ge (frame_abs m) t) a) \<and> b \<noteq> a"
    by (simp add: correlated_columns_mask)
  with a(2) show "\<exists>col \<in> set (labels m). b \<in> set (correlated_columns (frame_ge (frame_abs m) t) col) \<and> b \<noteq> col"
    by blast
qed

lemma high_corr_vars_marked:
  "find_high_corr_vars (frame_ge (frame_abs m) t) (labels (frame_ge (frame_abs m) t)) {}
     = {b. marked m t b}"
  unfolding find_high_corr_vars_eq labels_mask marked_iff by simp

lemma drop_highly_correlated_variables_eq:
  assumes "corr df = Inr m"
  shows "drop_highly_correlated_variables corr df t = drop df {b. marked m t b}"
  unfolding drop_highly_correlated_variables_def Let_def high_corr_vars_marked
  by (simp add: assms)

lemma marked_label: "marked m t b \<Longrightarrow> b \<in> set (labels m)"
  by (simp add: marked_def)

lemma drop_highly_correlated_variables_Inr:
  assumes "corr df = Inr m" and "set (labels m) \<subseteq> set (column_names df)"
  shows "drop_highly_correlated_variables corr df t =
           Inr (df\<lparr>columns := filter (\<lambda>c. \<not> marked m t (name c)) (columns df)\<rparr>)"
proof -
  have "{b. marked m t b} \<subseteq> set (column_names df)"
    using assms(2) marked_label[of m t] by blast
  then show ?thesis
    unfolding drop_highly_correlated_variables_eq[of corr df m t, OF assms(1)] drop_def by simp
qed

lemma sqrt_100: "sqrt 100 = 10"
  by (rule real_sqrt_unique) simp_all
lemma sqrt_25: "sqrt 25 = 5"
  by (rule real_sqrt_unique) simp_all
lemma sqrt_400: "sqrt 400 = 20"
  by (rule real_sqrt_unique) simp_all

lemma pearson_AB:
  "pearson [Some 1, Some 2, Some 3, Some 4] [Some 2, Some 4, Some 6, Some 8] = Fin 1"
  by (simp add: pearson_def complete_pairs_def mean_def Let_def sqrt_100)

lemma pearson_BA:
  "pearson [Some 2, Some 4, Some 6, Some 8] [Some 1, Some 2, Some 3, Some 4] = Fin 1"
  by (simp add: pearson_def complete_pairs_def mean_def Let_def sqrt_100)

lemma pearson_AA:
  "pearson [Some 1, Some 2, Some 3, Some 4] [Some 1, Some 2, Some 3, Some 4] = Fin 1"
  by (simp add: pearson_def complete_pairs_def mean_def Let_def sqrt_25)

lemma pearson_BB:
  "pearson [Some 2, Some 4, Some 6, Some 8] [Some 2, Some 4, Some 6, Some 8] = Fin 1"
  by (simp add: pearson_def complete_pairs_def mean_def Let_def sqrt_400)

lemma numeric_column_example_corr:
  "numeric_column example_corr ''A'' = [Some 1, Some 2, Some 3, Some 4]"
  "numeric_column example_corr ''B'' = [Some 2, Some 4, Some 6, Some 8]"
  by (simp_all add: numeric_column_def example_corr_def)

lemma pandas_corr_example_corr: "pandas_corr example_corr = Inr example_corr_matrix"
  by (simp add: pandas_corr_def example_corr_matrix_def column_names_def) (simp add: example_corr_def)

lemma example_corr_entries:
  "entry example_corr_matrix ''A'' ''A'' = Fin 1"
  "entry example_corr_matrix ''A'' ''B'' = Fin 1"
  "entry example_corr_matrix ''B'' ''A'' = Fin 1"
  "entry example_corr_matrix ''B'' ''B'' = Fin 1"
  by (simp_all add: example_corr_matrix_def numeric_column_example_corr
        pearson_AB pearson_BA pearson_AA pearson_BB)

lemma example_corr_marked:
  "marked example_corr_matrix (Fin (7/10)) ''A''"
  "marked example_corr_matrix (Fin (7/10)) ''B''"
proof -
  have l: "labels example_corr_matrix = [''A'', ''B'']"
    by (simp add: example_corr_matrix_def)
  show "marked example_corr_matrix (Fin (7/10)) ''A''"
    unfolding marked_def l by (simp add: example_corr_entries)
  show "marked example_corr_matrix (Fin (7/10)) ''B''"
    unfolding marked_def l by (simp add: example_corr_entries)
qed

lemma example_corr_dropped:
  "drop_highly_correlated_variables pandas_corr example_corr (Fin (7/10))
     = Inr \<lparr>index = [0, 1, 2, 3], columns = []\<rparr>"
proof -
  have "set (labels example_corr_matrix) \<subseteq> set (column_names example_corr)"
    by (simp add: example_corr_matrix_def column_names_def example_corr_def)
  with drop_highly_correlated_variables_Inr
           [of pandas_corr example_corr example_corr_matrix "Fin (7/10)"]
  have "drop_highly_correlated_variables pandas_corr example_corr (Fin (7/10)) =
          Inr (example_corr\<lparr>columns :=
                 filter (\<lambda>c. \<not> marked example_corr_matrix (Fin (7/10)) (name c))
                   (columns example_corr)\<rparr>)"
    by (simp add: pandas_corr_example_corr)
  then show ?thesis
    by (simp add: example_corr_def example_corr_marked)
qed


lemma numeric_column_example_constant:
  "numeric_column example_constant ''A'' = [Some 1, Some 1, Some 1]"
  "numeric_column example_constant ''B'' = [Some 1, Some 2, Some 3]"
  by (simp_all add: numeric_column_def example_constant_def)

lemma pandas_corr_example_constant: "pandas_corr example_constant = Inr example_constant_matrix"
  by (simp add: pandas_corr_def example_constant_matrix_def column_names_def)
     (simp add: example_constant_def)

lemma pearson_constant:
  "pearson [Some 1, Some 1, Some 1] [Some 1, Some 2, Some 3] = NaN"
  "pearson [Some 1, Some 2, Some 3] [Some 1, Some 1, Some 1] = NaN"
  by (simp_all add: pearson_def complete_pairs_def mean_def Let_def)

lemma example_constant_entries:
  "entry example_constant_matrix ''A'' ''B'' = NaN"
  "entry example_constant_matrix ''B'' ''A'' = NaN"
  by (simp_all add: example_constant_matrix_def numeric_column_example_constant pearson_constant)

lemma example_constant_not_marked:
  "\<not> marked example_constant_matrix (Fin (7/10)) ''A''"
  "\<not> marked example_constant_matrix (Fin (7/10)) ''B''"
proof -
  have l: "labels example_constant_matrix = [''A'', ''B'']"
    by (simp add: example_constant_matrix_def)
  show "\<not> marked example_constant_matrix (Fin (7/10)) ''A''"
    unfolding marked_def l by (simp add: example_constant_entries)
  show "\<not> marked example_constant_matrix (Fin (7/10)) ''B''"
    unfolding marked_def l by (simp add: example_constant_entries)
qed

lemma example_constant_kept:
  "drop_highly_correlated_variables pandas_corr example_constant (Fin (7/10))
     = Inr example_constant"
proof -
  have "set (labels example_constant_matrix) \<subseteq> set (column_names example_constant)"
    by (simp add: example_constant_matrix_def column_names_def example_constant_def)
  with drop_highly_correlated_variables_Inr
           [of pandas_corr example_constant example_constant_matrix "Fin (7/10)"]
  have "drop_highly_correlated_variables pandas_corr example_constant (Fin (7/10)) =
          Inr (example_constant\<lparr>columns :=
                 filter (\<lambda>c. \<not> marked example_constant_matrix (Fin (7/10)) (name c))
                   (columns example_constant)\<rparr>)"
    by (simp add: pandas_corr_example_constant)
  then show ?thesis
    by (simp add: example_constant_def example_constant_not_marked)
qed

lemma not_ge_imp_lt: "x \<noteq> NaN \<Longrightarrow> t \<noteq> NaN \<Longrightarrow> \<not> pf_ge x t \<Longrightarrow> pf_lt x t"
  by (cases x; cases t) (simp_all add: pf_lt_def)

lemma pf_abs_NaN_iff: "pf_abs x = NaN \<longleftrightarrow> x = NaN"
  by (cases x) simp_all

lemma kept_column_names:
  "set (column_names (df\<lparr>columns := filter (\<lambda>c. \<not> marked m t (name c)) (columns df)\<rparr>))
     = {n \<in> set (column_names df). \<not> marked m t n}"
  by (auto simp: column_names_def)

lemma example_corr_symmetric: "symmetric example_corr_matrix"
proof -
  have l: "labels example_corr_matrix = [''A'', ''B'']"
    by (simp add: example_corr_matrix_def)
  show ?thesis unfolding symmetric_def l by (simp add: example_corr_entries)
qed

lemma example_labels_subset:
  "set (labels example_corr_matrix) \<subseteq> set (column_names example_corr)"
  "set (labels example_constant_matrix) \<subseteq> set (column_names example_constant)"
  by (simp_all add: example_corr_matrix_def example_constant_matrix_def column_names_def
        example_corr_def example_constant_def)

text \<open>
  Claim C1, as amended. The claim says that in each group of correlated columns the one
  that comes first in column order is kept; the two loops mark both members of every
  pair, so column order plays no part. What holds: when the correlation matrix is
  \<open>m\<close> and its labels are columns of the table, the result is the table without
  the marked columns, a column being marked when it labels the matrix and its absolute
  correlation with some other label is at least the threshold; the other columns stay, in
  their order. For the table \<open>A = [1, 2, 3, 4]\<close>, \<open>B = [2, 4, 6, 8]\<close> and the
  threshold 0.7 both columns are dropped.
\<close>

theorem dropped_iff_marked:
  "(corr df = Inr m \<and> set (labels m) \<subseteq> set (column_names df) \<longrightarrow>
      drop_highly_correlated_variables corr df t =
        Inr (df\<lparr>columns := filter (\<lambda>c. \<not> marked m t (name c)) (columns df)\<rparr>))
   \<and> drop_highly_correlated_variables pandas_corr example_corr (Fin (7/10))
        = Inr \<lparr>index = [0, 1, 2, 3], columns = []\<rparr>"
proof (intro conjI impI)
  assume "corr df = Inr m \<and> set (labels m) \<subseteq> set (column_names df)"
  then show "drop_highly_correlated_variables corr df t =
        Inr (df\<lparr>columns := filter (\<lambda>c. \<not> marked m t (name c)) (columns df)\<rparr>)"
    using drop_highly_correlated_variables_Inr[of corr df m t] by simp
next
  show "drop_highly_correlated_variables pandas_corr example_corr (Fin (7/10))
        = Inr \<lparr>index = [0, 1, 2, 3], columns = []\<rparr>"
    by (rule example_corr_dropped)
qed

theorem dropped_iff_marked_witness:
  "pandas_corr example_corr = Inr example_corr_matrix
   \<and> set (labels example_corr_matrix) \<subseteq> set (column_names example_corr)
   \<and> drop_highly_correlated_variables pandas_corr example_corr (Fin (7/10)) =
        Inr (example_corr\<lparr>columns :=
               filter (\<lambda>c. \<not> marked example_corr_matrix (Fin (7/10)) (name c))
                 (columns example_corr)\<rparr>)"
proof -
  have l: "set (labels example_corr_matrix) \<subseteq> set (column_names example_corr)"
    by (simp add: example_corr_matrix_def column_names_def example_corr_def)
  with dropped_iff_marked[of pandas_corr example_corr example_corr_matrix "Fin (7/10)"]
    pandas_corr_example_corr
  show ?thesis by simp
qed

text \<open>
  Claim C1 as stated fails on its own example: the result has no column, so it is not
  the table that keeps \<open>A\<close> and drops \<open>B\<close>.
\<close>

theorem first_column_not_kept:
  "drop_highly_correlated_variables pandas_corr example_corr (Fin (7/10))
     = Inr \<lparr>index = [0, 1, 2, 3], columns = []\<rparr>
   \<and> drop_highly_correlated_variables pandas_corr example_corr (Fin (7/10))
     \<noteq> Inr \<lparr>index = [0, 1, 2, 3], columns = [\<lparr>name = ''A'', data = Int64 [1, 2, 3, 4]\<rparr>]\<rparr>"
  by (simp add: example_corr_dropped)

text \<open>
  Claim C2. When two distinct columns of the (symmetric) correlation matrix have an
  absolute correlation of at least the threshold, the function returns a table that has
  neither of them.
\<close>

theorem correlated_pair_both_dropped:
  assumes "corr df = Inr m" and "set (labels m) \<subseteq> set (column_names df)"
    and "symmetric m"
    and "a \<in> set (labels m)" and "b \<in> set (labels m)" and "a \<noteq> b"
    and "pf_ge (pf_abs (entry m a b)) t"
  shows "\<exists>out. drop_highly_correlated_variables corr df t = Inr out
           \<and> a \<notin> set (column_names out) \<and> b \<notin> set (column_names out)"
proof -
  let ?out = "df\<lparr>columns := filter (\<lambda>c. \<not> marked m t (name c)) (columns df)\<rparr>"
  from assms(3-5) have sym: "entry m b a = entry m a b"
    unfolding symmetric_def by blast
  have ba: "b \<noteq> a" using assms(6) by simp
  have "b \<in> set (labels m) \<and> b \<noteq> a \<and> pf_ge (pf_abs (entry m a b)) t"
    using assms(5,7) ba by simp
  then have ma: "marked m t a"
    unfolding marked_def using assms(4) by (intro conjI bexI[of _ b]) simp_all
  have "a \<in> set (labels m) \<and> a \<noteq> b \<and> pf_ge (pf_abs (entry m b a)) t"
    using assms(4,6,7) sym by simp
  then have mb: "marked m t b"
    unfolding marked_def using assms(5) by (intro conjI bexI[of _ a]) simp_all
  have eq: "drop_highly_correlated_variables corr df t = Inr ?out"
    by (rule drop_highly_correlated_variables_Inr[of corr df m t, OF assms(1,2)])
  have names: "set (column_names ?out) = {n \<in> set (column_names df). \<not> marked m t n}"
    by (rule kept_column_names)
  have "a \<notin> set (column_names ?out)" "b \<notin> set (column_names ?out)"
    unfolding names using ma mb by simp_all
  with eq show ?thesis by blast
qed

theorem correlated_pair_both_dropped_witness:
  "pandas_corr example_corr = Inr example_corr_matrix
   \<and> symmetric example_corr_matrix
   \<and> pf_ge (pf_abs (entry example_corr_matrix ''A'' ''B'')) (Fin (7/10))
   \<and> (\<exists>out. drop_highly_correlated_variables pandas_corr example_corr (Fin (7/10)) = Inr out
           \<and> ''A'' \<notin> set (column_names out) \<and> ''B'' \<notin> set (column_names out))"
proof -
  have l: "''A'' \<in> set (labels example_corr_matrix)" "''B'' \<in> set (labels example_corr_matrix)"
    by (simp_all add: example_corr_matrix_def)
  have ge: "pf_ge (pf_abs (entry example_corr_matrix ''A'' ''B'')) (Fin (7/10))"
    by (simp add: example_corr_entries)
  have ne: "''A'' \<noteq> ''B''" by simp
  from correlated_pair_both_dropped
      [of pandas_corr example_corr example_corr_matrix "''A''" "''B''" "Fin (7/10)",
       OF pandas_corr_example_corr example_labels_subset(1) example_corr_symmetric l ne ge]
  show ?thesis
    using pandas_corr_example_corr example_corr_symmetric ge by simp
qed

text \<open>
  Claim C3, as amended. The claim says that two distinct retained columns have an
  absolute correlation strictly below the threshold. A comparison with NaN is false, so a
  pair whose correlation is NaN (a constant column) is retained without being below the
  threshold. What holds: for two distinct retained columns of the correlation matrix the
  absolute correlation is never at least the threshold, and it is strictly below the
  threshold whenever neither the correlation nor the threshold is NaN.
\<close>

theorem retained_pairs_not_above_threshold:
  assumes "corr df = Inr m" and "set (labels m) \<subseteq> set (column_names df)"
  shows "\<exists>out. drop_highly_correlated_variables corr df t = Inr out
           \<and> (\<forall>a \<in> set (column_names out). \<forall>b \<in> set (column_names out).
                 a \<noteq> b \<and> a \<in> set (labels m) \<and> b \<in> set (labels m) \<longrightarrow>
                   \<not> pf_ge (pf_abs (entry m a b)) t
                   \<and> (entry m a b \<noteq> NaN \<and> t \<noteq> NaN \<longrightarrow> pf_lt (pf_abs (entry m a b)) t))"
proof -
  let ?out = "df\<lparr>columns := filter (\<lambda>c. \<not> marked m t (name c)) (columns df)\<rparr>"
  have pair: "\<not> pf_ge (pf_abs (entry m a b)) t
        \<and> (entry m a b \<noteq> NaN \<and> t \<noteq> NaN \<longrightarrow> pf_lt (pf_abs (entry m a b)) t)"
    if "\<not> marked m t a" "a \<noteq> b" "a \<in> set (labels m)" "b \<in> set (labels m)" for a b
  proof -
    have ba: "b \<noteq> a" using that(2) by simp
    have n: "\<not> pf_ge (pf_abs (entry m a b)) t"
    proof
      assume "pf_ge (pf_abs (entry m a b)) t"
      with that(3,4) ba have "marked m t a"
        unfolding marked_def by (intro conjI bexI[of _ b]) simp_all
      with that(1) show False by simp
    qed
    then show ?thesis
      using not_ge_imp_lt[of "pf_abs (entry m a b)" t] by (simp add: pf_abs_NaN_iff)
  qed
  have eq: "drop_highly_correlated_variables corr df t = Inr ?out"
    by (rule drop_highly_correlated_variables_Inr[of corr df m t, OF assms(1,2)])
  have names: "set (column_names ?out) = {n \<in> set (column_names df). \<not> marked m t n}"
    by (rule kept_column_names)
  have "\<forall>a \<in> set (column_names ?out). \<forall>b \<in> set (column_names ?out).
                 a \<noteq> b \<and> a \<in> set (labels m) \<and> b \<in> set (labels m) \<longrightarrow>
                   \<not> pf_ge (pf_abs (entry m a b)) t
                   \<and> (entry m a b \<noteq> NaN \<and> t \<noteq> NaN \<longrightarrow> pf_lt (pf_abs (entry m a b)) t)"
    unfolding names using pair by simp
  with eq show ?thesis by (intro exI[of _ ?out] conjI)
qed

theorem retained_pairs_not_above_threshold_witness:
  "pandas_corr example_constant = Inr example_constant_matrix
   \<and> set (labels example_constant_matrix) \<subseteq> set (column_names example_constant)
   \<and> (\<exists>out. drop_highly_correlated_variables pandas_corr example_constant (Fin (7/10)) = Inr out
         \<and> ''A'' \<in> set (column_names out) \<and> ''B'' \<in> set (column_names out)
         \<and> \<not> pf_ge (pf_abs (entry example_constant_matrix ''A'' ''B'')) (Fin (7/10)))"
proof -
  from retained_pairs_not_above_threshold
      [of pandas_corr example_constant example_constant_matrix "Fin (7/10)",
       OF pandas_corr_example_constant example_labels_subset(2)]
  obtain out where o:
    "drop_highly_correlated_variables pandas_corr example_constant (Fin (7/10)) = Inr out"
    by auto
  then have "out = example_constant" by (simp add: example_constant_kept)
  then have "''A'' \<in> set (column_names out)" "''B'' \<in> set (column_names out)"
    by (simp_all add: example_constant_def column_names_def)
  moreover have "\<not> pf_ge (pf_abs (entry example_constant_matrix ''A'' ''B'')) (Fin (7/10))"
    by (simp add: example_constant_entries)
  ultimately show ?thesis
    using o pandas_corr_example_constant example_labels_subset(2) by simp
qed

text \<open>
  Claim C3 as stated fails for the table \<open>A = [1, 1, 1]\<close>, \<open>B = [1, 2, 3]\<close>: both
  columns are retained and their correlation, NaN, is not below 0.7.
\<close>

theorem constant_column_pair_not_below:
  "drop_highly_correlated_variables pandas_corr example_constant (Fin (7/10))
     = Inr example_constant
   \<and> pandas_corr example_constant = Inr example_constant_matrix
   \<and> column_names example_constant = [''A'', ''B'']
   \<and> \<not> pf_lt (pf_abs (entry example_constant_matrix ''A'' ''B'')) (Fin (7/10))"
proof (intro conjI)
  show "column_names example_constant = [''A'', ''B'']"
    by (simp add: example_constant_def column_names_def)
  show "\<not> pf_lt (pf_abs (entry example_constant_matrix ''A'' ''B'')) (Fin (7/10))"
    by (simp add: example_constant_entries pf_lt_def)
qed (rule example_constant_kept pandas_corr_example_constant)+

section \<open>Properties of drop_columns_with_high_missing_values\<close>

lemma columns_to_drop_eq:
  "columns_to_drop df t =
     map name (filter (\<lambda>c. pf_gt (missing_percentage df c) t) (columns df))"
  by (simp add: columns_to_drop_def percent_missing_def isnull_sum_def missing_percentage_def
        filter_map o_def)

lemma columns_to_drop_subset: "set (columns_to_drop df t) \<subseteq> set (column_names df)"
  by (auto simp: columns_to_drop_eq column_names_def)

lemma name_in_columns_to_drop:
  assumes "distinct (column_names df)" and "c \<in> set (columns df)"
  shows "name c \<in> set (columns_to_drop df t) \<longleftrightarrow> pf_gt (missing_percentage df c) t"
proof
  assume "name c \<in> set (columns_to_drop df t)"
  then obtain c' where c': "c' \<in> set (columns df)" "pf_gt (missing_percentage df c') t"
      "name c' = name c"
    by (auto simp: columns_to_drop_eq)
  from assms(1) have "inj_on name (set (columns df))"
    by (simp add: column_names_def distinct_map)
  with c'(1,3) assms(2) have "c' = c" by (auto dest: inj_onD)
  with c'(2) show "pf_gt (missing_percentage df c) t" by simp
next
  assume "pf_gt (missing_percentage df c) t"
  with assms(2) show "name c \<in> set (columns_to_drop df t)"
    by (auto simp: columns_to_drop_eq)
qed

lemma drop_columns_with_high_missing_values_eq:
  assumes "distinct (column_names df)"
  shows "drop_columns_with_high_missing_values df t =
           Inr (df\<lparr>columns := filter (\<lambda>c. \<not> pf_gt (missing_percentage df c) t) (columns df)\<rparr>)"
proof -
  have "filter (\<lambda>c. name c \<notin> set (columns_to_drop df t)) (columns df)
        = filter (\<lambda>c. \<not> pf_gt (missing_percentage df c) t) (columns df)"
    by (rule filter_cong) (simp_all add: name_in_columns_to_drop[OF assms])
  then show ?thesis
    using columns_to_drop_subset[of df t]
    by (simp add: drop_columns_with_high_missing_values_def drop_def)
qed

lemma not_gt_imp_le: "p \<noteq> NaN \<Longrightarrow> t \<noteq> NaN \<Longrightarrow> \<not> pf_gt p t \<Longrightarrow> pf_le p t"
  by (cases p; cases t) (simp_all add: pf_le_def)

lemma missing_percentage_defined: "0 < len df \<Longrightarrow> missing_percentage df c \<noteq> NaN"
  by (simp add: missing_percentage_def pf_times100_NaN_iff pf_div_count_NaN_iff)

lemma drop_missing_example:
  "drop_columns_with_high_missing_values example_missing default_threshold =
     Inr \<lparr>index = [0, 1, 2, 3],
          columns = [\<lparr>name = ''B'', data = Object [Some ''x'', Some ''y'', Some ''x'', Some ''z'']\<rparr>]\<rparr>"
proof -
  have "distinct (column_names example_missing)"
    by (simp add: column_names_def example_missing_def)
  then show ?thesis
    by (simp add: drop_columns_with_high_missing_values_eq)
       (simp add: example_missing_def missing_percentage_def pf_div_count_def len_def default_threshold_def f64_eval)
qed

lemma drop_missing_zero_rows:
  "drop_columns_with_high_missing_values example_zero_rows default_threshold = Inr example_zero_rows"
proof -
  have "distinct (column_names example_zero_rows)"
    by (simp add: column_names_def example_zero_rows_def)
  then show ?thesis
    by (simp add: drop_columns_with_high_missing_values_eq)
       (simp add: example_zero_rows_def missing_percentage_def pf_div_count_def len_def default_threshold_def f64_eval)
qed

lemma null_count_le: "null_count d \<le> col_len d"
  by (cases d) simp_all

lemma missing_percentage_zero_rows:
  assumes "wf_table df" "len df = 0" "c \<in> set (columns df)"
  shows "missing_percentage df c = NaN"
proof -
  from assms have "col_len (data c) = 0"
    by (simp add: wf_table_def list_all_iff)
  with null_count_le[of "data c"] have "null_count (data c) = 0" by simp
  with assms(2) show ?thesis by (simp add: missing_percentage_def pf_div_count_def)
qed

lemma drop_missing_zero_rows_all:
  assumes "wf_table df" "len df = 0"
  shows "drop_columns_with_high_missing_values df t = Inr df"
proof -
  from assms(1) have d: "distinct (column_names df)" by (simp add: wf_table_def)
  have "\<forall>c \<in> set (columns df). \<not> pf_gt (missing_percentage df c) t"
    by (simp add: missing_percentage_zero_rows[OF assms])
  then have "filter (\<lambda>c. \<not> pf_gt (missing_percentage df c) t) (columns df) = columns df"
    by (simp only: filter_True)
  then show ?thesis
    by (simp add: drop_columns_with_high_missing_values_eq[OF d])
qed

lemma drop_missing_eleven_of_twenty:
  "drop_columns_with_high_missing_values example_eleven_of_twenty (Fin 55) =
     Inr \<lparr>index = [0, 1, 2, 3, 4, 5, 6, 7, 8, 9, 10, 11, 12, 13, 14, 15, 16, 17, 18, 19],
          columns = []\<rparr>"
proof -
  have "distinct (column_names example_eleven_of_twenty)"
    by (simp add: column_names_def example_eleven_of_twenty_def)
  then show ?thesis
    by (simp add: drop_columns_with_high_missing_values_eq)
       (simp add: example_eleven_of_twenty_def missing_percentage_def pf_div_count_def len_def
          f64_eval)
qed

lemma retained_name_iff:
  assumes "distinct (column_names df)" and "c \<in> set (columns df)"
  shows "name c \<in> set (column_names (df\<lparr>columns := filter P (columns df)\<rparr>)) \<longleftrightarrow> P c"
proof
  assume "name c \<in> set (column_names (df\<lparr>columns := filter P (columns df)\<rparr>))"
  then obtain c' where c': "c' \<in> set (columns df)" "P c'" "name c' = name c"
    by (auto simp: column_names_def)
  from assms(1) have "inj_on name (set (columns df))"
    by (simp add: column_names_def distinct_map)
  with c'(1,3) assms(2) have "c' = c" by (auto dest: inj_onD)
  with c'(2) show "P c" by simp
next
  assume "P c"
  with assms(2) show "name c \<in> set (column_names (df\<lparr>columns := filter P (columns df)\<rparr>))"
    by (auto simp: column_names_def)
qed

text \<open>
  Claim C4, as amended. The claim says that every retained column has a missing
  percentage of at most the threshold. On a table with no rows the percentage is
  \<open>0 / 0\<close>, NaN: it compares neither greater than the threshold nor at most it, and
  every column is retained. What holds, for a table with unique column names: the function
  returns the table without the columns whose percentage compares greater than the
  threshold, where the percentage of a column is the float64 value of
  \<open>(count / len) \<times> 100\<close>, the quotient rounded and then the product rounded; every
  dropped column has a percentage greater than the threshold, no retained column has, and
  a retained column has a percentage of at most the threshold when the table has a row
  and the threshold is not NaN; a table with no rows, unique column names and no cell is
  returned as it is. The comparison is on the percentage scale: with the default threshold
  0.7 a column with one missing cell in four (25 percent) is dropped. The percentage is the
  rounded one: with eleven missing cells in twenty rows it is \<^verbatim>\<open>55.00000000000001\<close>, and
  the column is dropped at the threshold 55.
\<close>

theorem high_missing_columns_dropped:
  assumes "distinct (column_names df)"
  shows "(\<exists>out. drop_columns_with_high_missing_values df t = Inr out
     \<and> index out = index df
     \<and> columns out = filter (\<lambda>c. \<not> pf_gt (missing_percentage df c) t) (columns df)
     \<and> (\<forall>c \<in> set (columns df). name c \<notin> set (column_names out) \<longrightarrow>
            pf_gt (missing_percentage df c) t)
     \<and> (\<forall>c \<in> set (columns df). name c \<in> set (column_names out) \<longrightarrow>
            \<not> pf_gt (missing_percentage df c) t
            \<and> (0 < len df \<and> t \<noteq> NaN \<longrightarrow> pf_le (missing_percentage df c) t))
     \<and> (wf_table df \<and> len df = 0 \<longrightarrow> out = df))
   \<and> drop_columns_with_high_missing_values example_missing default_threshold =
       Inr \<lparr>index = [0, 1, 2, 3],
            columns = [\<lparr>name = ''B'',
                        data = Object [Some ''x'', Some ''y'', Some ''x'', Some ''z'']\<rparr>]\<rparr>
   \<and> drop_columns_with_high_missing_values example_eleven_of_twenty (Fin 55) =
       Inr \<lparr>index = [0, 1, 2, 3, 4, 5, 6, 7, 8, 9, 10, 11, 12, 13, 14, 15, 16, 17, 18, 19],
            columns = []\<rparr>"
proof (intro conjI)
  define P where "P = (\<lambda>c. \<not> pf_gt (missing_percentage df c) t)"
  define out where "out = df\<lparr>columns := filter P (columns df)\<rparr>"
  have eq: "drop_columns_with_high_missing_values df t = Inr out"
    unfolding out_def P_def by (rule drop_columns_with_high_missing_values_eq[OF assms])
  have iff: "name c \<in> set (column_names out) \<longleftrightarrow> P c" if "c \<in> set (columns df)" for c
    unfolding out_def by (rule retained_name_iff[OF assms that])
  have A: "index out = index df" by (simp add: out_def)
  have B: "columns out = filter (\<lambda>c. \<not> pf_gt (missing_percentage df c) t) (columns df)"
    by (simp add: out_def P_def)
  have C: "\<forall>c \<in> set (columns df). name c \<notin> set (column_names out) \<longrightarrow>
            pf_gt (missing_percentage df c) t"
  proof (intro ballI impI)
    fix c assume "c \<in> set (columns df)" and n: "name c \<notin> set (column_names out)"
    from iff[OF this(1)] n have "\<not> P c" by simp
    then show "pf_gt (missing_percentage df c) t" by (simp add: P_def)
  qed
  have D: "\<forall>c \<in> set (columns df). name c \<in> set (column_names out) \<longrightarrow>
            \<not> pf_gt (missing_percentage df c) t
            \<and> (0 < len df \<and> t \<noteq> NaN \<longrightarrow> pf_le (missing_percentage df c) t)"
  proof (intro ballI impI conjI)
    fix c assume "c \<in> set (columns df)" and n: "name c \<in> set (column_names out)"
    from iff[OF this(1)] n have "P c" by simp
    then show g: "\<not> pf_gt (missing_percentage df c) t" by (simp add: P_def)
    assume "0 < len df \<and> t \<noteq> NaN"
    then show "pf_le (missing_percentage df c) t"
      using g not_gt_imp_le[of "missing_percentage df c" t]
        missing_percentage_defined[of df c] by simp
  qed
  have E: "wf_table df \<and> len df = 0 \<longrightarrow> out = df"
  proof
    assume "wf_table df \<and> len df = 0"
    then have "drop_columns_with_high_missing_values df t = Inr df"
      by (simp add: drop_missing_zero_rows_all)
    with eq show "out = df" by simp
  qed
  from eq A B C D E show "\<exists>out. drop_columns_with_high_missing_values df t = Inr out
     \<and> index out = index df
     \<and> columns out = filter (\<lambda>c. \<not> pf_gt (missing_percentage df c) t) (columns df)
     \<and> (\<forall>c \<in> set (columns df). name c \<notin> set (column_names out) \<longrightarrow>
            pf_gt (missing_percentage df c) t)
     \<and> (\<forall>c \<in> set (columns df). name c \<in> set (column_names out) \<longrightarrow>
            \<not> pf_gt (missing_percentage df c) t
            \<and> (0 < len df \<and> t \<noteq> NaN \<longrightarrow> pf_le (missing_percentage df c) t))
     \<and> (wf_table df \<and> len df = 0 \<longrightarrow> out = df)"
    by (intro exI[of _ out] conjI)
qed (rule drop_missing_example drop_missing_eleven_of_twenty)+

theorem high_missing_columns_dropped_witness:
  "distinct (column_names example_missing) \<and> 0 < len example_missing
   \<and> (\<exists>out. drop_columns_with_high_missing_values example_missing default_threshold = Inr out
        \<and> column_names out = [''B'']
        \<and> pf_le (missing_percentage example_missing
                   \<lparr>name = ''B'',
                      data = Object [Some ''x'', Some ''y'', Some ''x'', Some ''z'']\<rparr>)
             default_threshold
        \<and> pf_gt (missing_percentage example_missing
                   \<lparr>name = ''A'', data = Float64 [Some 1, Some 2, None, Some 4]\<rparr>)
             default_threshold)
   \<and> wf_table example_zero_rows \<and> len example_zero_rows = 0
   \<and> (\<exists>out. drop_columns_with_high_missing_values example_zero_rows default_threshold = Inr out
        \<and> out = example_zero_rows)"
proof -
  have d: "distinct (column_names example_missing)"
    by (simp add: column_names_def example_missing_def)
  have l: "0 < len example_missing"
    by (simp add: len_def example_missing_def)
  from high_missing_columns_dropped[OF d, of default_threshold]
  have e: "drop_columns_with_high_missing_values example_missing default_threshold =
       Inr \<lparr>index = [0, 1, 2, 3],
            columns = [\<lparr>name = ''B'',
                        data = Object [Some ''x'', Some ''y'', Some ''x'', Some ''z'']\<rparr>]\<rparr>"
    by simp
  have le: "pf_le (missing_percentage example_missing
                   \<lparr>name = ''B'',
                      data = Object [Some ''x'', Some ''y'', Some ''x'', Some ''z'']\<rparr>)
             default_threshold"
    by (simp add: example_missing_def missing_percentage_def pf_div_count_def len_def
          default_threshold_def f64_eval pf_le_def)
  have gt: "pf_gt (missing_percentage example_missing
                   \<lparr>name = ''A'', data = Float64 [Some 1, Some 2, None, Some 4]\<rparr>)
             default_threshold"
    by (simp add: example_missing_def missing_percentage_def pf_div_count_def len_def
          default_threshold_def f64_eval)
  have w: "wf_table example_zero_rows" and z: "len example_zero_rows = 0"
    by (simp_all add: wf_table_def column_names_def len_def example_zero_rows_def)
  then have dz: "distinct (column_names example_zero_rows)"
    by (simp add: wf_table_def)
  from high_missing_columns_dropped[OF dz, of default_threshold] w z
  have ez: "\<exists>out. drop_columns_with_high_missing_values example_zero_rows default_threshold
                = Inr out \<and> out = example_zero_rows"
    by simp
  have first: "\<exists>out. drop_columns_with_high_missing_values example_missing default_threshold
        = Inr out
        \<and> column_names out = [''B'']
        \<and> pf_le (missing_percentage example_missing
                   \<lparr>name = ''B'',
                      data = Object [Some ''x'', Some ''y'', Some ''x'', Some ''z'']\<rparr>)
             default_threshold
        \<and> pf_gt (missing_percentage example_missing
                   \<lparr>name = ''A'', data = Float64 [Some 1, Some 2, None, Some 4]\<rparr>)
             default_threshold"
    unfolding e using le gt by (simp add: column_names_def)
  from d l first w z ez show ?thesis by (intro conjI)
qed

text \<open>
  Claim C4 as stated fails for a table with one column and no rows: the column is
  retained and its percentage, NaN, is not at most 0.7.
\<close>

theorem zero_rows_retained_not_le:
  "drop_columns_with_high_missing_values example_zero_rows default_threshold = Inr example_zero_rows
   \<and> columns example_zero_rows = [\<lparr>name = ''A'', data = Float64 []\<rparr>]
   \<and> \<not> pf_le (missing_percentage example_zero_rows \<lparr>name = ''A'', data = Float64 []\<rparr>)
          default_threshold"
  by (simp add: drop_missing_zero_rows)
     (simp add: example_zero_rows_def missing_percentage_def pf_div_count_def len_def default_threshold_def f64_eval pf_le_def)

section \<open>Properties of separate_categorical_numerical\<close>

lemma separate_columns:
  "columns (fst (separate_categorical_numerical df))
     = filter (\<lambda>c. dtype_of (data c) \<in> {dt_object, dt_category}) (columns df)"
  "columns (snd (separate_categorical_numerical df))
     = filter (\<lambda>c. dtype_of (data c) \<notin> {dt_object, dt_category}) (columns df)"
  "index (fst (separate_categorical_numerical df)) = index df"
  "index (snd (separate_categorical_numerical df)) = index df"
  by (simp_all add: separate_categorical_numerical_def select_dtypes_include_def
        select_dtypes_exclude_def Let_def)

lemma filter_names_disjoint:
  assumes "distinct (map f xs)"
  shows "set (map f (filter P xs)) \<inter> set (map f (filter (\<lambda>x. \<not> P x) xs)) = {}"
proof -
  from assms have inj: "inj_on f (set xs)" by (simp add: distinct_map)
  show ?thesis
  proof (rule ccontr)
    assume "set (map f (filter P xs)) \<inter> set (map f (filter (\<lambda>x. \<not> P x) xs)) \<noteq> {}"
    then obtain x y where "x \<in> set xs" "P x" "y \<in> set xs" "\<not> P y" "f x = f y"
      by auto
    with inj have "x = y" by (auto dest: inj_onD)
    with \<open>P x\<close> \<open>\<not> P y\<close> show False by simp
  qed
qed

text \<open>
  Claim C6. The two outputs of \<open>separate_categorical_numerical\<close> split the columns of
  the table: every column is in exactly one output (the two column lists add up to the
  table's, as multisets, and share no column), the object and category columns in the
  first and the integer and float columns in the second; each output keeps the columns
  in their original relative order, with their cells, and has the table's index, hence
  its rows in their order; the names of the outputs are together the table's names, and
  no name is in both when the table's names are unique.
\<close>

theorem separate_partitions_columns:
  "mset (columns (fst (separate_categorical_numerical df)))
     + mset (columns (snd (separate_categorical_numerical df))) = mset (columns df)
   \<and> set (columns (fst (separate_categorical_numerical df)))
       \<union> set (columns (snd (separate_categorical_numerical df))) = set (columns df)
   \<and> set (columns (fst (separate_categorical_numerical df)))
       \<inter> set (columns (snd (separate_categorical_numerical df))) = {}
   \<and> (\<forall>c \<in> set (columns (fst (separate_categorical_numerical df))).
         dtype_of (data c) = dt_object \<or> dtype_of (data c) = dt_category)
   \<and> (\<forall>c \<in> set (columns (snd (separate_categorical_numerical df))).
         dtype_of (data c) = dt_int64 \<or> dtype_of (data c) = dt_float64)
   \<and> subseq (columns (fst (separate_categorical_numerical df))) (columns df)
   \<and> subseq (columns (snd (separate_categorical_numerical df))) (columns df)
   \<and> index (fst (separate_categorical_numerical df)) = index df
   \<and> index (snd (separate_categorical_numerical df)) = index df
   \<and> set (column_names (fst (separate_categorical_numerical df)))
       \<union> set (column_names (snd (separate_categorical_numerical df)))
       = set (column_names df)
   \<and> (distinct (column_names df) \<longrightarrow>
        set (column_names (fst (separate_categorical_numerical df)))
          \<inter> set (column_names (snd (separate_categorical_numerical df))) = {})"
proof (intro conjI impI)
  let ?P = "\<lambda>c. dtype_of (data c) \<in> {dt_object, dt_category}"
  show "mset (columns (fst (separate_categorical_numerical df)))
     + mset (columns (snd (separate_categorical_numerical df))) = mset (columns df)"
    unfolding separate_columns by simp
  show "set (columns (fst (separate_categorical_numerical df)))
       \<union> set (columns (snd (separate_categorical_numerical df))) = set (columns df)"
    unfolding separate_columns by auto
  show "set (columns (fst (separate_categorical_numerical df)))
       \<inter> set (columns (snd (separate_categorical_numerical df))) = {}"
    unfolding separate_columns by auto
  show "\<forall>c \<in> set (columns (fst (separate_categorical_numerical df))).
         dtype_of (data c) = dt_object \<or> dtype_of (data c) = dt_category"
    unfolding separate_columns by simp
  show "\<forall>c \<in> set (columns (snd (separate_categorical_numerical df))).
         dtype_of (data c) = dt_int64 \<or> dtype_of (data c) = dt_float64"
  proof
    fix c assume "c \<in> set (columns (snd (separate_categorical_numerical df)))"
    then have "dtype_of (data c) \<notin> {dt_object, dt_category}"
      unfolding separate_columns by simp
    then show "dtype_of (data c) = dt_int64 \<or> dtype_of (data c) = dt_float64"
      by (cases "dtype_of (data c)") simp_all
  qed
  show "subseq (columns (fst (separate_categorical_numerical df))) (columns df)"
    unfolding separate_columns by (rule subseq_filter_left)
  show "subseq (columns (snd (separate_categorical_numerical df))) (columns df)"
    unfolding separate_columns by (rule subseq_filter_left)
  show "index (fst (separate_categorical_numerical df)) = index df"
    by (rule separate_columns)
  show "index (snd (separate_categorical_numerical df)) = index df"
    by (rule separate_columns)
  show "set (column_names (fst (separate_categorical_numerical df)))
       \<union> set (column_names (snd (separate_categorical_numerical df)))
       = set (column_names df)"
    unfolding column_names_def separate_columns by auto
  assume "distinct (column_names df)"
  then show "set (column_names (fst (separate_categorical_numerical df)))
          \<inter> set (column_names (snd (separate_categorical_numerical df))) = {}"
    unfolding column_names_def separate_columns by (rule filter_names_disjoint)
qed

theorem separate_partitions_columns_witness:
  "distinct (column_names example_missing)
   \<and> column_names (fst (separate_categorical_numerical example_missing)) = [''B'']
   \<and> column_names (snd (separate_categorical_numerical example_missing)) = [''A'']
   \<and> set (column_names (fst (separate_categorical_numerical example_missing)))
          \<inter> set (column_names (snd (separate_categorical_numerical example_missing))) = {}"
proof -
  have d: "distinct (column_names example_missing)"
    by (simp add: column_names_def example_missing_def)
  have n: "column_names (fst (separate_categorical_numerical example_missing)) = [''B'']"
      "column_names (snd (separate_categorical_numerical example_missing)) = [''A'']"
    unfolding column_names_def separate_columns by (simp_all add: example_missing_def)
  from separate_partitions_columns[of example_missing] d
  have "set (column_names (fst (separate_categorical_numerical example_missing)))
          \<inter> set (column_names (snd (separate_categorical_numerical example_missing))) = {}"
    by simp
  with d n show ?thesis by simp
qed

section \<open>Properties of label_encode_categorical_variables\<close>

lemma index_of_less: "x \<in> set xs \<Longrightarrow> index_of xs x < length xs"
  by (induction xs) auto

lemma nth_index_of: "x \<in> set xs \<Longrightarrow> xs ! index_of xs x = x"
  by (induction xs) auto

lemma index_of_nth: "distinct xs \<Longrightarrow> i < length xs \<Longrightarrow> index_of xs (xs ! i) = i"
proof (induction xs arbitrary: i)
  case Nil
  then show ?case by simp
next
  case (Cons y ys)
  show ?case
  proof (cases i)
    case 0
    then show ?thesis by simp
  next
    case (Suc k)
    with Cons.prems have "k < length ys" "ys ! k \<in> set ys" by simp_all
    with Cons.prems have "ys ! k \<noteq> y" by auto
    with Cons Suc \<open>k < length ys\<close> show ?thesis by simp
  qed
qed

lemma set_classes_of: "set (classes_of vs) = {x. Some x \<in> set vs}"
proof -
  have "set (map the (filter (\<lambda>v. v \<noteq> None) vs)) = {x. Some x \<in> set vs}"
    by (induction vs) auto
  then show ?thesis by (simp add: classes_of_def)
qed

lemma distinct_classes_of: "distinct (classes_of vs)"
  by (simp add: classes_of_def)

lemma sorted_classes_of: "sorted (classes_of vs)"
  by (simp add: classes_of_def)

lemma index_of_mono:
  assumes "sorted xs" "distinct xs" "x \<in> set xs" "y \<in> set xs"
  shows "index_of xs x < index_of xs y \<longleftrightarrow> x < y"
proof
  assume l: "index_of xs x < index_of xs y"
  with assms have "xs ! index_of xs x \<le> xs ! index_of xs y"
    by (intro sorted_nth_mono) (simp_all add: index_of_less)
  then have "x \<le> y" using assms by (simp add: nth_index_of)
  moreover from l have "x \<noteq> y" by auto
  ultimately show "x < y" by simp
next
  assume l: "x < y"
  show "index_of xs x < index_of xs y"
  proof (rule ccontr)
    assume "\<not> index_of xs x < index_of xs y"
    then have "index_of xs y \<le> index_of xs x" by simp
    with assms have "xs ! index_of xs y \<le> xs ! index_of xs x"
      by (intro sorted_nth_mono) (simp_all add: index_of_less)
    then have "y \<le> x" using assms by (simp add: nth_index_of)
    with l show False by simp
  qed
qed

lemma index_of_inj:
  assumes "x \<in> set xs" "y \<in> set xs" "index_of xs x = index_of xs y"
  shows "x = y"
proof -
  have "x = xs ! index_of xs x" using assms(1) by (simp only: nth_index_of)
  also have "\<dots> = xs ! index_of xs y" by (simp only: assms(3))
  also have "\<dots> = y" using assms(2) by (simp only: nth_index_of)
  finally show ?thesis .
qed

lemma code_of_eq_iff:
  assumes "v \<in> set vs" "w \<in> set vs"
  shows "code_of (classes_of vs) v = code_of (classes_of vs) w \<longleftrightarrow> v = w"
proof (cases v; cases w)
  fix x y assume vw: "v = Some x" "w = Some y"
  with assms have "x \<in> set (classes_of vs)" "y \<in> set (classes_of vs)"
    by (simp_all add: set_classes_of)
  then show ?thesis using vw index_of_inj[of x "classes_of vs" y]
    by (auto simp: code_of_def)
next
  fix x assume vw: "v = Some x" "w = None"
  with assms have "x \<in> set (classes_of vs)" by (simp add: set_classes_of)
  then show ?thesis using vw index_of_less[of x "classes_of vs"]
    by (simp add: code_of_def)
next
  fix y assume vw: "v = None" "w = Some y"
  with assms have "y \<in> set (classes_of vs)" by (simp add: set_classes_of)
  then show ?thesis using vw index_of_less[of y "classes_of vs"]
    by (simp add: code_of_def)
qed (simp add: code_of_def)

lemma code_of_less_iff:
  assumes "v \<in> set vs" "w \<in> set vs"
  shows "code_of (classes_of vs) v < code_of (classes_of vs) w \<longleftrightarrow> opt_less v w"
proof (cases v; cases w)
  fix x y assume vw: "v = Some x" "w = Some y"
  with assms have "x \<in> set (classes_of vs)" "y \<in> set (classes_of vs)"
    by (simp_all add: set_classes_of)
  then show ?thesis
    using vw index_of_mono[OF sorted_classes_of distinct_classes_of, of x vs y]
    by (simp add: code_of_def)
next
  fix x assume vw: "v = Some x" "w = None"
  with assms have "x \<in> set (classes_of vs)" by (simp add: set_classes_of)
  then show ?thesis using vw index_of_less[of x "classes_of vs"]
    by (simp add: code_of_def)
next
  fix y assume vw: "v = None" "w = Some y"
  with assms have "y \<in> set (classes_of vs)" by (simp add: set_classes_of)
  then show ?thesis using vw index_of_less[of y "classes_of vs"]
    by (simp add: code_of_def)
qed (simp add: code_of_def)


lemma index_of_image: "distinct xs \<Longrightarrow> index_of xs ` set xs = {0..<length xs}"
proof (intro set_eqI iffI)
  fix i assume "i \<in> index_of xs ` set xs"
  then show "i \<in> {0..<length xs}" by (auto simp: index_of_less)
next
  fix i assume d: "distinct xs" and "i \<in> {0..<length xs}"
  then have i: "i < length xs" by simp
  then have "xs ! i \<in> set xs" by simp
  moreover have "index_of xs (xs ! i) = i" using d i by (rule index_of_nth)
  ultimately show "i \<in> index_of xs ` set xs" by force
qed

lemma set_cells_split:
  "set vs = Some ` set (classes_of vs) \<union> (if None \<in> set vs then {None} else {})"
proof (intro set_eqI iffI)
  fix v assume a: "v \<in> set vs"
  show "v \<in> Some ` set (classes_of vs) \<union> (if None \<in> set vs then {None} else {})"
  proof (cases v)
    case None
    with a show ?thesis by simp
  next
    case (Some x)
    with a show ?thesis by (simp add: set_classes_of)
  qed
next
  fix v assume a: "v \<in> Some ` set (classes_of vs) \<union> (if None \<in> set vs then {None} else {})"
  show "v \<in> set vs"
  proof (cases v)
    case None
    with a show ?thesis by (auto split: if_splits)
  next
    case (Some x)
    with a show ?thesis by (auto simp: set_classes_of split: if_splits)
  qed
qed

lemma card_set_cells:
  "card (set vs) = length (classes_of vs) + (if None \<in> set vs then 1 else 0)"
proof -
  have c: "card (Some ` set (classes_of vs)) = length (classes_of vs)"
    by (simp add: card_image distinct_card distinct_classes_of)
  have n: "None \<notin> Some ` set (classes_of vs)" by auto
  show ?thesis
  proof (cases "None \<in> set vs")
    case True
    then have "set vs = insert None (Some ` set (classes_of vs))"
      using set_cells_split[of vs] by simp
    moreover have "card (insert None (Some ` set (classes_of vs)))
        = Suc (card (Some ` set (classes_of vs)))"
      using n by (intro card_insert_disjoint finite_imageI finite_set)
    ultimately have "card (set vs) = Suc (card (Some ` set (classes_of vs)))"
      by (simp only:)
    with c True show ?thesis by simp
  next
    case False
    then have "set vs = Some ` set (classes_of vs)"
      using set_cells_split[of vs] by simp
    with c False show ?thesis by simp
  qed
qed

lemma code_of_image_Some:
  "code_of (classes_of vs) ` Some ` set (classes_of vs) = int ` {0..<length (classes_of vs)}"
proof -
  have "code_of (classes_of vs) ` Some ` set (classes_of vs)
        = int ` (index_of (classes_of vs) ` set (classes_of vs))"
    by (simp add: image_image code_of_def)
  then show ?thesis by (simp only: index_of_image[OF distinct_classes_of])
qed

lemma set_encode: "set (encode vs) = int ` {0..<card (set vs)}"
proof -
  have e: "set (encode vs) = code_of (classes_of vs) ` set vs"
    by (simp add: encode_def)
  show ?thesis
  proof (cases "None \<in> set vs")
    case True
    then have "set vs = insert None (Some ` set (classes_of vs))"
      using set_cells_split[of vs] by simp
    then have "code_of (classes_of vs) ` set vs
        = insert (code_of (classes_of vs) None)
            (code_of (classes_of vs) ` Some ` set (classes_of vs))"
      by (simp only: image_insert)
    also have "\<dots> = insert (int (length (classes_of vs))) (int ` {0..<length (classes_of vs)})"
      by (simp only: code_of_image_Some) (simp add: code_of_def)
    also have "\<dots> = int ` {0..<Suc (length (classes_of vs))}"
      by (simp only: atLeast0_lessThan_Suc image_insert)
    finally show ?thesis using True by (simp add: e card_set_cells)
  next
    case False
    then have "set vs = Some ` set (classes_of vs)"
      using set_cells_split[of vs] by simp
    then have "code_of (classes_of vs) ` set vs = int ` {0..<length (classes_of vs)}"
      by (simp only: code_of_image_Some)
    then show ?thesis using False by (simp add: e card_set_cells)
  qed
qed

lemma is_label_encoding_encode: "is_label_encoding vs (encode vs)"
  unfolding is_label_encoding_def
proof (intro conjI allI impI)
  show "length (encode vs) = length vs" by (simp add: encode_def)
  show "set (encode vs) = int ` {0..<card (set vs)}" by (rule set_encode)
next
  fix i j assume "i < length vs" "j < length vs"
  then have m: "vs ! i \<in> set vs" "vs ! j \<in> set vs" by simp_all
  have n: "encode vs ! i = code_of (classes_of vs) (vs ! i)"
      "encode vs ! j = code_of (classes_of vs) (vs ! j)"
    using \<open>i < length vs\<close> \<open>j < length vs\<close> by (simp_all add: encode_def)
  show "(encode vs ! i = encode vs ! j) = (vs ! i = vs ! j)"
    unfolding n by (rule code_of_eq_iff[OF m])
  show "(encode vs ! i < encode vs ! j) = opt_less (vs ! i) (vs ! j)"
    unfolding n by (rule code_of_less_iff[OF m])
qed

lemma sorted_map_int_upt: "sorted (map int [0..<K])"
  by (induction K) (auto simp: sorted_append)

lemma sorted_distinct_range:
  assumes "sorted xs" "distinct xs" "set xs = int ` {0..<K}"
  shows "xs = map int [0..<K]"
proof (rule sorted_distinct_set_unique)
  show "sorted xs" "distinct xs" by fact+
  show "sorted (map int [0..<K])" by (rule sorted_map_int_upt)
  show "distinct (map int [0..<K])" by (simp add: distinct_map)
  show "set xs = set (map int [0..<K])" using assms(3) by simp
qed

lemma classes_of_codes:
  assumes "set ks = int ` {0..<K}"
  shows "classes_of (map Some ks) = map int [0..<K]"
proof -
  have s: "set (classes_of (map Some ks)) = int ` {0..<K}"
    using assms by (auto simp: set_classes_of)
  show ?thesis
    by (rule sorted_distinct_range[OF sorted_classes_of distinct_classes_of s])
qed

lemma encode_codes:
  assumes "set ks = int ` {0..<K}"
  shows "encode (map Some ks) = ks"
proof -
  have "code_of (map int [0..<K]) (Some k) = k" if "k \<in> set ks" for k
  proof -
    from that assms obtain j where j: "j < K" "k = int j" by auto
    have "index_of (map int [0..<K]) (map int [0..<K] ! j) = j"
      by (rule index_of_nth) (simp_all add: distinct_map j(1))
    then have "index_of (map int [0..<K]) (int j) = j" using j(1) by simp
    then show ?thesis by (simp add: code_of_def j(2))
  qed
  then have "map (\<lambda>k. code_of (map int [0..<K]) (Some k)) ks = ks"
    by (intro map_idI)
  then show ?thesis
    by (simp add: encode_def classes_of_codes[OF assms] o_def)
qed

lemma encode_encode: "encode (map Some (encode vs)) = encode vs"
  by (rule encode_codes[OF set_encode])

lemma fit_transform_codes:
  assumes "set ks = int ` {0..<K}"
  shows "fit_transform (Int64 ks) = Int64 ks"
  by (simp add: encode_codes[OF assms])

lemma fit_transform_cases:
  "(\<exists>ks K. fit_transform d = Int64 ks \<and> set ks = int ` {0..<K})
   \<or> (col_len d = 0 \<and> fit_transform d = Float64 [])"
proof -
  have codes: "\<exists>ks K. Int64 (encode vs) = Int64 ks \<and> set ks = int ` {0..<K}"
    for vs :: "('a::linorder) option list"
    using set_encode[of vs] by blast
  show ?thesis
  proof (cases d)
    case (Int64 xs)
    then show ?thesis using codes[of "map Some xs"] by simp
  next
    case (Float64 xs)
    then show ?thesis using codes[of xs] by simp
  next
    case (Object xs)
    then show ?thesis using codes[of xs] by simp
  next
    case (Category xs)
    then show ?thesis using codes[of xs] by simp
  qed
qed

lemma encode_Nil: "encode [] = []"
  by (simp add: encode_def)

lemma fit_transform_twice:
  "fit_transform (fit_transform d) =
     (if fit_transform d = Float64 [] then Int64 [] else fit_transform d)"
proof -
  from fit_transform_cases[of d] show ?thesis
  proof
    assume "\<exists>ks K. fit_transform d = Int64 ks \<and> set ks = int ` {0..<K}"
    then obtain ks K where k: "fit_transform d = Int64 ks" "set ks = int ` {0..<K}"
      by blast
    then show ?thesis by (simp add: encode_codes[OF k(2)])
  next
    assume "col_len d = 0 \<and> fit_transform d = Float64 []"
    then show ?thesis by (simp add: encode_Nil)
  qed
qed

lemma fit_transform_thrice:
  "fit_transform (fit_transform (fit_transform d)) = fit_transform (fit_transform d)"
proof (cases "fit_transform d = Float64 []")
  case True
  then show ?thesis by (simp add: encode_Nil)
next
  case False
  then show ?thesis by (simp add: fit_transform_twice[of d])
qed

lemma funpow_fit_transform:
  "(fit_transform ^^ Suc (Suc k)) d = fit_transform (fit_transform d)"
proof (induction k)
  case 0
  show ?case by simp
next
  case (Suc k)
  have "(fit_transform ^^ Suc (Suc (Suc k))) d
          = fit_transform ((fit_transform ^^ Suc (Suc k)) d)"
    by simp
  also have "\<dots> = fit_transform (fit_transform (fit_transform d))"
    by (simp only: Suc.IH)
  finally show ?case by (simp only: fit_transform_thrice)
qed

lemma encoded_by_fit_transform: "encoded_by d (fit_transform d)"
  by (cases d) (simp_all add: is_label_encoding_encode)

lemma encoded_by_fit_transform_twice: "encoded_by d (fit_transform (fit_transform d))"
proof (cases "fit_transform d = Float64 []")
  case True
  then have "fit_transform (fit_transform d) = Int64 []" by (simp add: encode_Nil)
  moreover from True have "col_len d = 0"
    using fit_transform_cases[of d] by auto
  then have "encoded_by d (Int64 [])"
    using is_label_encoding_encode[of "[]::int option list"]
      is_label_encoding_encode[of "[]::real option list"]
      is_label_encoding_encode[of "[]::string option list"]
    by (cases d) (simp_all add: encode_Nil)
  ultimately show ?thesis by simp
next
  case False
  then show ?thesis by (simp add: fit_transform_twice[of d] encoded_by_fit_transform)
qed

lemma encoded_by_funpow:
  assumes "0 < k"
  shows "encoded_by d ((fit_transform ^^ k) d)"
proof (cases k)
  case 0
  with assms show ?thesis by simp
next
  case (Suc j)
  show ?thesis
  proof (cases j)
    case 0
    with Suc show ?thesis by (simp add: encoded_by_fit_transform)
  next
    case (Suc i)
    with \<open>k = Suc j\<close> show ?thesis
      by (simp only: funpow_fit_transform encoded_by_fit_transform_twice)
  qed
qed

lemma col_len_fit_transform: "col_len (fit_transform d) = col_len d"
  by (cases d) (simp_all add: encode_def)

lemma col_len_funpow: "col_len ((fit_transform ^^ k) d) = col_len d"
  by (induction k) (simp_all add: col_len_fit_transform)

lemma filter_key_singleton:
  assumes "distinct (map f cs)" "c \<in> set cs"
  shows "filter (\<lambda>x. f x = f c) cs = [c]"
  using assms
proof (induction cs)
  case Nil
  then show ?case by simp
next
  case (Cons a cs)
  show ?case
  proof (cases "a = c")
    case True
    from Cons.prems(1) have "f c \<notin> f ` set cs" using True by simp
    then have "\<forall>x \<in> set cs. f x \<noteq> f c" by (metis imageI)
    then have "filter (\<lambda>x. f x = f c) cs = []"
      by (simp add: filter_empty_conv)
    with True show ?thesis by simp
  next
    case False
    with Cons.prems have c: "c \<in> set cs" by simp
    with Cons.prems(1) have "f a \<noteq> f c" by (metis distinct.simps(2) imageI list.simps(9) set_map)
    with Cons c show ?thesis by simp
  qed
qed

lemma filter_name_singleton:
  assumes "distinct (map name cs)" "c \<in> set cs"
  shows "filter (\<lambda>x. name x = name c) cs = [c]"
  using assms by (rule filter_key_singleton)

lemma getitem_distinct:
  assumes "distinct (column_names df)" "col \<in> set (column_names df)"
  shows "\<exists>c \<in> set (columns df). name c = col \<and> getitem df col = Inr (data c)"
proof -
  from assms(2) obtain c where c: "c \<in> set (columns df)" "name c = col"
    by (auto simp: column_names_def)
  from assms(1) have "distinct (map name (columns df))" by (simp add: column_names_def)
  from filter_name_singleton[OF this c(1)] c(2)
  have "filter (\<lambda>x. name x = col) (columns df) = [c]" by simp
  then have "getitem df col = Inr (data c)" by (simp add: getitem_def)
  with c show ?thesis by blast
qed

lemma column_names_setitem:
  "col \<in> set (column_names df) \<Longrightarrow> column_names (setitem df col vals) = column_names df"
  by (simp add: setitem_def column_names_def o_def cong: map_cong)

lemma getitem_Inr_unique:
  assumes "distinct (column_names df)" "x \<in> set (columns df)" "getitem df (name x) = Inr s"
  shows "s = data x"
proof -
  from assms(1) have "distinct (map name (columns df))" by (simp add: column_names_def)
  from filter_name_singleton[OF this assms(2)]
  have "getitem df (name x) = Inr (data x)" by (simp add: getitem_def)
  with assms(3) show ?thesis by simp
qed

lemma setitem_fit_transform:
  assumes "distinct (column_names df)" "col \<in> set (column_names df)" "getitem df col = Inr s"
  shows "setitem df col (fit_transform s)
           = df\<lparr>columns := map (encode_named [col]) (columns df)\<rparr>"
proof -
  have "(if name x = col then x\<lparr>data := fit_transform s\<rparr> else x) = encode_named [col] x"
    if "x \<in> set (columns df)" for x
  proof (cases "name x = col")
    case True
    with assms(3) have "getitem df (name x) = Inr s" by simp
    from getitem_Inr_unique[OF assms(1) that this] have "s = data x" .
    with True show ?thesis by (simp add: encode_named_def)
  next
    case False
    then have "col \<noteq> name x" by (rule_tac notI) simp
    with False show ?thesis by (simp add: encode_named_def)
  qed
  then have "map (\<lambda>x. if name x = col then x\<lparr>data := fit_transform s\<rparr> else x) (columns df)
      = map (encode_named [col]) (columns df)"
    by (intro map_cong refl)
  with assms(2) show ?thesis by (simp add: setitem_def)
qed

lemma name_encode_named: "name (encode_named L c) = name c"
  by (simp add: encode_named_def)

lemma column_names_encode_named:
  "column_names (df\<lparr>columns := map (encode_named L) (columns df)\<rparr>) = column_names df"
  by (simp add: column_names_def o_def name_encode_named)

lemma encode_named_Nil: "encode_named [] c = c"
  by (simp add: encode_named_def)

lemma encode_named_Cons:
  "encode_named rest (encode_named [col] c) = encode_named (col # rest) c"
  by (simp add: encode_named_def funpow_swap1)

lemma encode_named_absent:
  assumes "col \<notin> set (column_names df)"
  shows "map (encode_named (col # rest)) (columns df) = map (encode_named rest) (columns df)"
proof (intro map_cong refl)
  fix x assume "x \<in> set (columns df)"
  then have "name x \<in> set (column_names df)" by (simp add: column_names_def)
  with assms have "col \<noteq> name x" by (rule_tac notI) simp
  then show "encode_named (col # rest) x = encode_named rest x"
    by (simp add: encode_named_def)
qed

lemma encode_columns_eq:
  "distinct (column_names df) \<Longrightarrow>
     encode_columns df L = Inr (df\<lparr>columns := map (encode_named L) (columns df)\<rparr>)"
proof (induction L arbitrary: df)
  case Nil
  have "map (encode_named []) (columns df) = columns df"
    by (rule map_idI) (rule encode_named_Nil)
  then show ?case by simp
next
  case (Cons col rest)
  show ?case
  proof (cases "col \<in> set (column_names df)")
    case False
    then have "encode_columns df (col # rest) = encode_columns df rest" by simp
    also have "\<dots> = Inr (df\<lparr>columns := map (encode_named rest) (columns df)\<rparr>)"
      using Cons.prems by (rule Cons.IH)
    finally show ?thesis by (simp only: encode_named_absent[OF False])
  next
    case True
    from getitem_distinct[OF Cons.prems True] obtain c
      where c: "c \<in> set (columns df)" "name c = col \<and> getitem df col = Inr (data c)"
      by (rule bexE)
    from c(2) have g: "getitem df col = Inr (data c)" by (rule conjunct2)
    let ?df' = "df\<lparr>columns := map (encode_named [col]) (columns df)\<rparr>"
    have s: "setitem df col (fit_transform (data c)) = ?df'"
      by (rule setitem_fit_transform[OF Cons.prems True g])
    have d: "distinct (column_names ?df')"
      using Cons.prems by (simp only: column_names_encode_named)
    have "encode_columns df (col # rest) = encode_columns ?df' rest"
      using True g s by simp
    also have "\<dots> = Inr (?df'\<lparr>columns := map (encode_named rest) (columns ?df')\<rparr>)"
      using d by (rule Cons.IH)
    finally show ?thesis by (simp add: encode_named_Cons o_def)
  qed
qed

lemma encode_columns_filter:
  "encode_columns df L = encode_columns df (filter (\<lambda>n. n \<in> set (column_names df)) L)"
proof (induction L arbitrary: df)
  case Nil
  show ?case by simp
next
  case (Cons col rest)
  show ?case
  proof (cases "col \<in> set (column_names df)")
    case False
    then show ?thesis using Cons.IH[of df] by simp
  next
    case True
    show ?thesis
    proof (cases "getitem df col")
      case (Inl e)
      with True show ?thesis by simp
    next
      case (Inr s)
      let ?df' = "setitem df col (fit_transform s)"
      have n: "column_names ?df' = column_names df"
        using True by (rule column_names_setitem)
      have "encode_columns df (col # rest) = encode_columns ?df' rest"
        using True Inr by simp
      also have "\<dots> = encode_columns ?df' (filter (\<lambda>n. n \<in> set (column_names ?df')) rest)"
        by (rule Cons.IH)
      also have "\<dots> = encode_columns df (col # filter (\<lambda>n. n \<in> set (column_names df)) rest)"
        using True Inr by (simp add: n)
      finally show ?thesis using True by simp
    qed
  qed
qed

lemma label_encode_eq:
  assumes "distinct (column_names df)"
  shows "label_encode_categorical_variables df L =
           Inr (df\<lparr>columns := map (encode_named L) (columns df)\<rparr>)"
  by (simp add: label_encode_categorical_variables_def copy_def encode_columns_eq[OF assms])

lemma count_list_pos_iff: "0 < count_list L x \<longleftrightarrow> x \<in> set L"
  by (induction L) auto

lemma encode_named_in:
  assumes "name c \<in> set L"
  shows "encoded_by (data c) (data (encode_named L c))"
proof -
  from assms have "0 < count_list L (name c)" by (simp only: count_list_pos_iff)
  then show ?thesis by (simp add: encode_named_def encoded_by_funpow)
qed

lemma encode_named_notin:
  assumes "name c \<notin> set L"
  shows "encode_named L c = c"
proof -
  from assms have "\<not> 0 < count_list L (name c)" by (simp add: count_list_pos_iff)
  then show ?thesis by (simp add: encode_named_def)
qed

lemma col_len_encode_named: "col_len (data (encode_named L c)) = col_len (data c)"
  by (simp add: encode_named_def col_len_funpow)

lemma encode_example_B:
  "encode [Some ''x'', Some ''y'', Some ''x'', Some ''z''] = [0, 1, 0, 2]"
  by (simp add: encode_def classes_of_def code_of_def)

lemma label_encode_example:
  "label_encode_categorical_variables example_missing [''B'', ''C''] =
     Inr \<lparr>index = [0, 1, 2, 3],
          columns =
            [\<lparr>name = ''A'', data = Float64 [Some 1, Some 2, None, Some 4]\<rparr>,
             \<lparr>name = ''B'', data = Int64 [0, 1, 0, 2]\<rparr>]\<rparr>"
proof -
  have "distinct (column_names example_missing)"
    by (simp add: column_names_def example_missing_def)
  then show ?thesis
    by (simp add: label_encode_eq)
       (simp add: example_missing_def encode_named_def encode_example_B)
qed

lemma encode_columns_absent:
  "\<forall>n \<in> set L. n \<notin> set (column_names df) \<Longrightarrow> encode_columns df L = Inr df"
  by (induction L) simp_all


text \<open>
  Claim C7. For a table with unique column names and any list of names,
  \<open>label_encode_categorical_variables\<close> returns a table with the same index (hence the
  same rows), the same number of columns and the same column names in the same order, and
  every column keeps its number of cells. A column whose name is in the list holds a label
  encoding of its former cells: integer codes, equal for equal cells and different for
  different cells, ordered as the values are (the missing cell last), and making up the
  numbers from zero to the number of distinct cells (a column without cells stays without
  cells). A column whose name is not in the list is unchanged. For the table with
  \<open>A = [1, 2, missing, 4]\<close> and \<open>B = [x, y, x, z]\<close> and the names \<open>B\<close> and \<open>C\<close> the
  column \<open>B\<close> becomes \<open>[0, 1, 0, 2]\<close>.
\<close>

theorem label_encoding_codes:
  assumes "distinct (column_names df)"
  shows "(\<exists>out. label_encode_categorical_variables df L = Inr out
      \<and> index out = index df
      \<and> length (columns out) = length (columns df)
      \<and> column_names out = column_names df
      \<and> (\<forall>i < length (columns df).
            col_len (data (columns out ! i)) = col_len (data (columns df ! i))
            \<and> (name (columns df ! i) \<in> set L \<longrightarrow>
                 encoded_by (data (columns df ! i)) (data (columns out ! i)))
            \<and> (name (columns df ! i) \<notin> set L \<longrightarrow> columns out ! i = columns df ! i)))
   \<and> label_encode_categorical_variables example_missing [''B'', ''C''] =
       Inr \<lparr>index = [0, 1, 2, 3],
            columns =
              [\<lparr>name = ''A'', data = Float64 [Some 1, Some 2, None, Some 4]\<rparr>,
               \<lparr>name = ''B'', data = Int64 [0, 1, 0, 2]\<rparr>]\<rparr>"
proof (rule conjI)
  define out where "out = df\<lparr>columns := map (encode_named L) (columns df)\<rparr>"
  have eq: "label_encode_categorical_variables df L = Inr out"
    unfolding out_def by (rule label_encode_eq[OF assms])
  have A: "index out = index df" by (simp add: out_def)
  have B: "length (columns out) = length (columns df)" by (simp add: out_def)
  have C: "column_names out = column_names df"
    unfolding out_def by (rule column_names_encode_named)
  have D: "\<forall>i < length (columns df).
            col_len (data (columns out ! i)) = col_len (data (columns df ! i))
            \<and> (name (columns df ! i) \<in> set L \<longrightarrow>
                 encoded_by (data (columns df ! i)) (data (columns out ! i)))
            \<and> (name (columns df ! i) \<notin> set L \<longrightarrow> columns out ! i = columns df ! i)"
  proof (intro allI impI conjI)
    fix i assume i: "i < length (columns df)"
    then have n: "columns out ! i = encode_named L (columns df ! i)"
      by (simp add: out_def)
    show "col_len (data (columns out ! i)) = col_len (data (columns df ! i))"
      unfolding n by (rule col_len_encode_named)
    show "encoded_by (data (columns df ! i)) (data (columns out ! i))"
      if "name (columns df ! i) \<in> set L"
      unfolding n using that by (rule encode_named_in)
    show "columns out ! i = columns df ! i" if "name (columns df ! i) \<notin> set L"
      unfolding n using that by (rule encode_named_notin)
  qed
  from eq A B C D show "\<exists>out. label_encode_categorical_variables df L = Inr out
      \<and> index out = index df
      \<and> length (columns out) = length (columns df)
      \<and> column_names out = column_names df
      \<and> (\<forall>i < length (columns df).
            col_len (data (columns out ! i)) = col_len (data (columns df ! i))
            \<and> (name (columns df ! i) \<in> set L \<longrightarrow>
                 encoded_by (data (columns df ! i)) (data (columns out ! i)))
            \<and> (name (columns df ! i) \<notin> set L \<longrightarrow> columns out ! i = columns df ! i))"
    by (intro exI[of _ out] conjI)
qed (rule label_encode_example)

theorem label_encoding_codes_witness:
  "distinct (column_names example_missing)
   \<and> (\<exists>out. label_encode_categorical_variables example_missing [''B'', ''C''] = Inr out
        \<and> column_names out = [''A'', ''B'']
        \<and> columns out ! 0 = \<lparr>name = ''A'', data = Float64 [Some 1, Some 2, None, Some 4]\<rparr>
        \<and> data (columns out ! 1) = Int64 [0, 1, 0, 2]
        \<and> encoded_by (Object [Some ''x'', Some ''y'', Some ''x'', Some ''z''])
             (data (columns out ! 1)))"
proof -
  have d: "distinct (column_names example_missing)"
    by (simp add: column_names_def example_missing_def)
  have l: "length (columns example_missing) = 2"
      "columns example_missing ! 0
         = \<lparr>name = ''A'', data = Float64 [Some 1, Some 2, None, Some 4]\<rparr>"
      "columns example_missing ! 1
         = \<lparr>name = ''B'', data = Object [Some ''x'', Some ''y'', Some ''x'', Some ''z'']\<rparr>"
    by (simp_all add: example_missing_def)
  from label_encoding_codes[OF d, of "[''B'', ''C'']"]
  obtain out where o: "label_encode_categorical_variables example_missing [''B'', ''C''] = Inr out"
    and p: "\<forall>i < length (columns example_missing).
            col_len (data (columns out ! i)) = col_len (data (columns example_missing ! i))
            \<and> (name (columns example_missing ! i) \<in> set [''B'', ''C''] \<longrightarrow>
                 encoded_by (data (columns example_missing ! i)) (data (columns out ! i)))
            \<and> (name (columns example_missing ! i) \<notin> set [''B'', ''C''] \<longrightarrow>
                 columns out ! i = columns example_missing ! i)"
    and e: "label_encode_categorical_variables example_missing [''B'', ''C''] =
       Inr \<lparr>index = [0, 1, 2, 3],
            columns =
              [\<lparr>name = ''A'', data = Float64 [Some 1, Some 2, None, Some 4]\<rparr>,
               \<lparr>name = ''B'', data = Int64 [0, 1, 0, 2]\<rparr>]\<rparr>"
    by (elim conjE exE)
  from p[THEN spec, of 1] l have b: "encoded_by (Object [Some ''x'', Some ''y'', Some ''x'', Some ''z''])
             (data (columns out ! 1))"
    by simp
  from o e have out: "out = \<lparr>index = [0, 1, 2, 3],
            columns =
              [\<lparr>name = ''A'', data = Float64 [Some 1, Some 2, None, Some 4]\<rparr>,
               \<lparr>name = ''B'', data = Int64 [0, 1, 0, 2]\<rparr>]\<rparr>"
    by simp
  have rest: "column_names out = [''A'', ''B'']
        \<and> columns out ! 0 = \<lparr>name = ''A'', data = Float64 [Some 1, Some 2, None, Some 4]\<rparr>
        \<and> data (columns out ! 1) = Int64 [0, 1, 0, 2]"
    unfolding out by (simp add: column_names_def)
  from d o rest b show ?thesis by (intro conjI exI[of _ out]) simp_all
qed

text \<open>
  Claim C9. A name of the list that is no column of the table is skipped: the call
  returns what it returns for the sublist of the names that are columns of the table, it
  returns a table (raises no error) when the column names are unique, and it returns the
  table as it is when no name of the list is a column.
\<close>

theorem absent_names_skipped:
  "label_encode_categorical_variables df L =
     label_encode_categorical_variables df (filter (\<lambda>n. n \<in> set (column_names df)) L)
   \<and> (distinct (column_names df) \<longrightarrow>
        (\<exists>out. label_encode_categorical_variables df L = Inr out))
   \<and> ((\<forall>n \<in> set L. n \<notin> set (column_names df)) \<longrightarrow>
        label_encode_categorical_variables df L = Inr df)"
proof (intro conjI impI)
  show "label_encode_categorical_variables df L =
     label_encode_categorical_variables df (filter (\<lambda>n. n \<in> set (column_names df)) L)"
    unfolding label_encode_categorical_variables_def copy_def Let_def
    by (rule encode_columns_filter)
next
  assume "distinct (column_names df)"
  then show "\<exists>out. label_encode_categorical_variables df L = Inr out"
    by (simp add: label_encode_eq)
next
  assume "\<forall>n \<in> set L. n \<notin> set (column_names df)"
  then show "label_encode_categorical_variables df L = Inr df"
    by (simp add: label_encode_categorical_variables_def copy_def encode_columns_absent)
qed

theorem absent_names_skipped_witness:
  "distinct (column_names example_missing)
   \<and> filter (\<lambda>n. n \<in> set (column_names example_missing)) [''Z'', ''B'', ''C''] = [''B'']
   \<and> label_encode_categorical_variables example_missing [''Z'', ''B'', ''C'']
       = label_encode_categorical_variables example_missing [''B'']
   \<and> (\<exists>out. label_encode_categorical_variables example_missing [''Z'', ''B'', ''C''] = Inr out)
   \<and> ''Z'' \<notin> set (column_names example_missing)
   \<and> ''C'' \<notin> set (column_names example_missing)
   \<and> label_encode_categorical_variables example_missing [''Z'', ''C''] = Inr example_missing"
proof -
  have d: "distinct (column_names example_missing)"
    by (simp add: column_names_def example_missing_def)
  have f: "filter (\<lambda>n. n \<in> set (column_names example_missing)) [''Z'', ''B'', ''C''] = [''B'']"
    by (simp add: column_names_def example_missing_def)
  have a: "\<forall>n \<in> set [''Z'', ''C'']. n \<notin> set (column_names example_missing)"
    by (simp add: column_names_def example_missing_def)
  note t = absent_names_skipped[of example_missing "[''Z'', ''B'', ''C'']"]
  from t[THEN conjunct1]
  have one: "label_encode_categorical_variables example_missing [''Z'', ''B'', ''C'']
       = label_encode_categorical_variables example_missing [''B'']"
    by (simp only: f)
  from t[THEN conjunct2, THEN conjunct1] d
  have two: "\<exists>out. label_encode_categorical_variables example_missing [''Z'', ''B'', ''C'']
       = Inr out"
    by (rule mp)
  from absent_names_skipped[of example_missing "[''Z'', ''C'']", THEN conjunct2, THEN conjunct2] a
  have three: "label_encode_categorical_variables example_missing [''Z'', ''C'']
       = Inr example_missing"
    by (rule mp)
  have z: "''Z'' \<notin> set (column_names example_missing)"
    and c: "''C'' \<notin> set (column_names example_missing)"
    by (simp_all add: column_names_def example_missing_def)
  from d f one two z c three show ?thesis by (intro conjI)
qed

section \<open>Tables without rows or without columns\<close>

lemma zero_rows_no_cells:
  assumes "wf_table df" "len df = 0" "c \<in> set (columns df)"
  shows "col_len (data c) = 0"
  using assms by (simp add: wf_table_def list_all_iff)

lemma no_cells_facts:
  assumes "col_len d = 0"
  shows "\<not> has_missing d" "\<not> has_text d" "as_float d = []"
  using assms by (cases d; simp)+

lemma degenerate_no_missing:
  assumes "wf_table df" "len df = 0 \<or> columns df = []"
  shows "\<forall>c \<in> set (columns df). \<not> has_missing (data c)"
proof
  fix c assume c: "c \<in> set (columns df)"
  with assms(2) have "len df = 0" by auto
  from zero_rows_no_cells[OF assms(1) this c] show "\<not> has_missing (data c)"
    by (rule no_cells_facts)
qed

lemma find_missing_values_degenerate:
  assumes "wf_table df" "len df = 0 \<or> columns df = []"
  shows "find_missing_values df = Message ''There are no missing values in the DataFrame.''"
  using degenerate_no_missing[OF assms] sum_isnull_zero_iff[of df]
  by (simp add: find_missing_values_def Let_def)

lemma drop_missing_no_columns:
  assumes "columns df = []"
  shows "drop_columns_with_high_missing_values df t = Inr df"
proof -
  from assms have "distinct (column_names df)" by (simp add: column_names_def)
  from drop_columns_with_high_missing_values_eq[OF this, of t] assms
  show ?thesis by (cases df) simp
qed

lemma drop_missing_degenerate:
  assumes "wf_table df" "len df = 0 \<or> columns df = []"
  shows "drop_columns_with_high_missing_values df t = Inr df"
  using assms(2)
proof
  assume "len df = 0"
  with assms(1) show ?thesis by (rule drop_missing_zero_rows_all)
next
  assume "columns df = []"
  then show ?thesis by (rule drop_missing_no_columns)
qed

lemma numeric_column_zero_rows:
  assumes "wf_table df" "len df = 0"
  shows "numeric_column df n = []"
proof (cases "filter (\<lambda>c. name c = n) (columns df)")
  case Nil
  then show ?thesis by (simp add: numeric_column_def)
next
  case (Cons c cs)
  then have "c \<in> set (filter (\<lambda>c. name c = n) (columns df))" by simp
  then have "c \<in> set (columns df)" by simp
  from zero_rows_no_cells[OF assms this] have "as_float (data c) = []"
    by (rule no_cells_facts)
  with Cons show ?thesis by (simp add: numeric_column_def)
qed

lemma pearson_Nil: "pearson [] [] = NaN"
  by (simp add: pearson_def complete_pairs_def)

lemma pandas_corr_zero_rows:
  assumes "wf_table df" "len df = 0"
  shows "pandas_corr df = Inr \<lparr>labels = column_names df, entry = (\<lambda>r c. NaN)\<rparr>"
proof -
  have "\<forall>c \<in> set (columns df). \<not> has_text (data c)"
  proof
    fix c assume "c \<in> set (columns df)"
    from zero_rows_no_cells[OF assms this] show "\<not> has_text (data c)"
      by (rule no_cells_facts)
  qed
  then have "list_all (\<lambda>c. \<not> has_text (data c)) (columns df)"
    by (simp add: list_all_iff)
  then show ?thesis
    by (simp add: pandas_corr_def numeric_column_zero_rows[OF assms] pearson_Nil)
qed

lemma drop_correlated_zero_rows:
  assumes "wf_table df" "len df = 0"
  shows "drop_highly_correlated_variables pandas_corr df t = Inr df"
proof -
  let ?m = "\<lparr>labels = column_names df, entry = (\<lambda>r c. NaN)\<rparr> :: pyfloat frame"
  have n: "\<not> marked ?m t b" for b by (simp add: marked_def)
  have "drop_highly_correlated_variables pandas_corr df t =
          Inr (df\<lparr>columns := filter (\<lambda>c. \<not> marked ?m t (name c)) (columns df)\<rparr>)"
    by (rule drop_highly_correlated_variables_Inr[of pandas_corr df ?m t])
       (simp_all add: pandas_corr_zero_rows[OF assms])
  then show ?thesis by (simp add: n)
qed

lemma drop_correlated_no_columns:
  assumes "columns df = []"
  shows "drop_highly_correlated_variables pandas_corr df t = Inr df"
proof -
  let ?m = "\<lparr>labels = column_names df,
             entry = (\<lambda>r c. pearson (numeric_column df r) (numeric_column df c))\<rparr>"
  have p: "pandas_corr df = Inr ?m" using assms by (simp add: pandas_corr_def)
  have "drop_highly_correlated_variables pandas_corr df t =
          Inr (df\<lparr>columns := filter (\<lambda>c. \<not> marked ?m t (name c)) (columns df)\<rparr>)"
    by (rule drop_highly_correlated_variables_Inr[of pandas_corr df ?m t, OF p]) simp
  with assms show ?thesis by (cases df) simp
qed

lemma wf_table_filter:
  assumes "wf_table df"
  shows "wf_table (df\<lparr>columns := filter P (columns df)\<rparr>)"
  using assms
  by (simp add: wf_table_def column_names_def len_def list_all_iff distinct_map_filter)

lemma separate_wf:
  assumes "wf_table df"
  shows "wf_table (fst (separate_categorical_numerical df))"
    "wf_table (snd (separate_categorical_numerical df))"
  using wf_table_filter[OF assms]
  by (simp_all add: separate_categorical_numerical_def select_dtypes_include_def
        select_dtypes_exclude_def Let_def)

lemma wf_table_encoded:
  assumes "wf_table df"
  shows "wf_table (df\<lparr>columns := map (encode_named L) (columns df)\<rparr>)"
proof -
  have "column_names (df\<lparr>columns := map (encode_named L) (columns df)\<rparr>) = column_names df"
    by (rule column_names_encode_named)
  with assms show ?thesis
    by (simp add: wf_table_def len_def list_all_iff col_len_encode_named)
qed

text \<open>
  Claim C10. On a table without rows or without columns (with unique column names and
  one cell per row in every column) no function raises. \<open>find_missing_values\<close> returns
  the message "no missing values"; \<open>drop_columns_with_high_missing_values\<close> returns the
  table with every column, for every threshold (the percentage \<open>0 / 0\<close> is NaN and does
  not compare greater than the threshold); \<open>separate_categorical_numerical\<close> returns two
  tables with the index of the input; \<open>label_encode_categorical_variables\<close> returns a
  table with the same index and column names; \<open>drop_highly_correlated_variables\<close>, with
  the correlation matrix of pandas, returns the table with every column.
\<close>

theorem degenerate_tables_handled:
  assumes "wf_table df" and "len df = 0 \<or> columns df = []"
  shows "find_missing_values df = Message ''There are no missing values in the DataFrame.''
   \<and> drop_columns_with_high_missing_values df t = Inr df
   \<and> wf_table (fst (separate_categorical_numerical df))
   \<and> wf_table (snd (separate_categorical_numerical df))
   \<and> index (fst (separate_categorical_numerical df)) = index df
   \<and> index (snd (separate_categorical_numerical df)) = index df
   \<and> (\<exists>out. label_encode_categorical_variables df L = Inr out
         \<and> wf_table out \<and> index out = index df \<and> column_names out = column_names df)
   \<and> drop_highly_correlated_variables pandas_corr df t = Inr df"
proof (intro conjI)
  show "find_missing_values df = Message ''There are no missing values in the DataFrame.''"
    using assms by (rule find_missing_values_degenerate)
  show "drop_columns_with_high_missing_values df t = Inr df"
    using assms by (rule drop_missing_degenerate)
  show "wf_table (fst (separate_categorical_numerical df))"
    "wf_table (snd (separate_categorical_numerical df))"
    using assms(1) by (rule separate_wf)+
  show "index (fst (separate_categorical_numerical df)) = index df"
    "index (snd (separate_categorical_numerical df)) = index df"
    by (rule separate_columns)+
  show "\<exists>out. label_encode_categorical_variables df L = Inr out
         \<and> wf_table out \<and> index out = index df \<and> column_names out = column_names df"
  proof (intro exI conjI)
    from assms(1) have "distinct (column_names df)" by (simp add: wf_table_def)
    then show "label_encode_categorical_variables df L =
        Inr (df\<lparr>columns := map (encode_named L) (columns df)\<rparr>)"
      by (rule label_encode_eq)
    show "wf_table (df\<lparr>columns := map (encode_named L) (columns df)\<rparr>)"
      using assms(1) by (rule wf_table_encoded)
    show "index (df\<lparr>columns := map (encode_named L) (columns df)\<rparr>) = index df"
      by simp
    show "column_names (df\<lparr>columns := map (encode_named L) (columns df)\<rparr>) = column_names df"
      by (rule column_names_encode_named)
  qed
  from assms(2) show "drop_highly_correlated_variables pandas_corr df t = Inr df"
  proof
    assume "len df = 0"
    with assms(1) show ?thesis by (rule drop_correlated_zero_rows)
  next
    assume "columns df = []"
    then show ?thesis by (rule drop_correlated_no_columns)
  qed
qed

theorem degenerate_tables_handled_witness:
  "wf_table example_zero_rows \<and> len example_zero_rows = 0
   \<and> find_missing_values example_zero_rows
        = Message ''There are no missing values in the DataFrame.''
   \<and> drop_columns_with_high_missing_values example_zero_rows default_threshold
        = Inr example_zero_rows
   \<and> drop_highly_correlated_variables pandas_corr example_zero_rows default_threshold
        = Inr example_zero_rows
   \<and> wf_table example_zero_columns \<and> columns example_zero_columns = []
   \<and> find_missing_values example_zero_columns
        = Message ''There are no missing values in the DataFrame.''
   \<and> drop_columns_with_high_missing_values example_zero_columns default_threshold
        = Inr example_zero_columns
   \<and> drop_highly_correlated_variables pandas_corr example_zero_columns default_threshold
        = Inr example_zero_columns"
proof -
  have w: "wf_table example_zero_rows" and z: "len example_zero_rows = 0"
    by (simp_all add: wf_table_def column_names_def len_def example_zero_rows_def)
  have w': "wf_table example_zero_columns" and z': "columns example_zero_columns = []"
    by (simp_all add: wf_table_def column_names_def len_def example_zero_columns_def)
  from z have h: "len example_zero_rows = 0 \<or> columns example_zero_rows = []"
    by (rule disjI1)
  from z' have h': "len example_zero_columns = 0 \<or> columns example_zero_columns = []"
    by (rule disjI2)
  note r = degenerate_tables_handled[OF w h, of default_threshold "[''A'']"]
  note c = degenerate_tables_handled[OF w' h', of default_threshold "[''A'']"]
  from r have r1: "find_missing_values example_zero_rows
        = Message ''There are no missing values in the DataFrame.''"
    and r2: "drop_columns_with_high_missing_values example_zero_rows default_threshold
        = Inr example_zero_rows"
    and r3: "drop_highly_correlated_variables pandas_corr example_zero_rows default_threshold
        = Inr example_zero_rows"
    by simp_all
  from c have c1: "find_missing_values example_zero_columns
        = Message ''There are no missing values in the DataFrame.''"
    and c2: "drop_columns_with_high_missing_values example_zero_columns default_threshold
        = Inr example_zero_columns"
    and c3: "drop_highly_correlated_variables pandas_corr example_zero_columns default_threshold
        = Inr example_zero_columns"
    by simp_all
  from w z r1 r2 r3 w' z' c1 c2 c3 show ?thesis by (intro conjI)
qed

section \<open>The input table after a call\<close>

lemma drop_h_frame:
  "take (length h) (snd (drop_h h r labs)) = h"
  by (simp add: drop_h_def alloc_def split: sum.splits)

lemma drop_h_deref:
  "deref (drop_h h r labs) = drop (h ! r) labs"
  by (simp add: drop_h_def alloc_def deref_def split: sum.splits)

lemma drop_h_fresh:
  "fst (drop_h h r labs) = Inr r' \<Longrightarrow> r' = length h"
  by (simp add: drop_h_def alloc_def split: sum.splits)

lemma encode_columns_h_frame:
  "r < length h \<Longrightarrow>
     length (snd (encode_columns_h h r L)) = length h
     \<and> take r (snd (encode_columns_h h r L)) = take r h"
proof (induction L arbitrary: h)
  case Nil
  show ?case by simp
next
  case (Cons col rest)
  show ?case
  proof (cases "col \<in> set (column_names (h ! r))")
    case False
    with Cons.IH[OF Cons.prems] show ?thesis by simp
  next
    case True
    show ?thesis
    proof (cases "getitem (h ! r) col")
      case (Inl e)
      with True show ?thesis by simp
    next
      case (Inr s)
      let ?h' = "setitem_h h r col (fit_transform s)"
      have l: "length ?h' = length h" and t: "take r ?h' = take r h"
        by (simp_all add: setitem_h_def)
      from Cons.prems l have "r < length ?h'" by simp
      from Cons.IH[OF this] l t
      have "length (snd (encode_columns_h ?h' r rest)) = length h
          \<and> take r (snd (encode_columns_h ?h' r rest)) = take r h"
        by simp
      with True Inr show ?thesis by simp
    qed
  qed
qed

lemma encode_columns_h_deref:
  "r < length h \<Longrightarrow> deref (encode_columns_h h r L) = encode_columns (h ! r) L"
proof (induction L arbitrary: h)
  case Nil
  show ?case by (simp add: deref_def)
next
  case (Cons col rest)
  show ?case
  proof (cases "col \<in> set (column_names (h ! r))")
    case False
    with Cons.IH[OF Cons.prems] show ?thesis by simp
  next
    case True
    show ?thesis
    proof (cases "getitem (h ! r) col")
      case (Inl e)
      with True show ?thesis by (simp add: deref_def)
    next
      case (Inr s)
      let ?h' = "setitem_h h r col (fit_transform s)"
      have l: "length ?h' = length h"
        and n: "?h' ! r = setitem (h ! r) col (fit_transform s)"
        using Cons.prems by (simp_all add: setitem_h_def)
      from Cons.prems l have "r < length ?h'" by simp
      from Cons.IH[OF this] n
      have "deref (encode_columns_h ?h' r rest)
          = encode_columns (setitem (h ! r) col (fit_transform s)) rest"
        by simp
      with True Inr show ?thesis by simp
    qed
  qed
qed

lemma label_encode_h_frame:
  "take (length h) (snd (label_encode_categorical_variables_h h r L)) = h"
proof -
  let ?h1 = "h @ [copy (h ! r)]"
  have "length h < length ?h1" by simp
  from encode_columns_h_frame[OF this, of L]
  have "take (length h) (snd (encode_columns_h ?h1 (length h) L)) = take (length h) ?h1"
    by (rule conjunct2)
  then show ?thesis
    by (simp add: label_encode_categorical_variables_h_def copy_h_def alloc_def)
qed

lemma label_encode_h_deref:
  "deref (label_encode_categorical_variables_h h r L)
     = label_encode_categorical_variables (h ! r) L"
proof -
  let ?h1 = "h @ [copy (h ! r)]"
  have "length h < length ?h1" by simp
  from encode_columns_h_deref[OF this, of L]
  have "deref (encode_columns_h ?h1 (length h) L) = encode_columns (copy (h ! r)) L"
    by simp
  then show ?thesis
    by (simp add: label_encode_categorical_variables_h_def copy_h_def alloc_def
          label_encode_categorical_variables_def)
qed

lemma separate_h_frame:
  "take (length h) (snd (separate_categorical_numerical_h h r)) = h"
  by (simp add: separate_categorical_numerical_h_def alloc_def)

lemma separate_h_deref:
  assumes "r < length h"
  shows "(snd (separate_categorical_numerical_h h r)
            ! fst (fst (separate_categorical_numerical_h h r)),
          snd (separate_categorical_numerical_h h r)
            ! snd (fst (separate_categorical_numerical_h h r)))
         = separate_categorical_numerical (h ! r)"
  using assms
  by (simp add: separate_categorical_numerical_h_def alloc_def
        separate_categorical_numerical_def nth_append)

lemma drop_correlated_h_frame:
  "take (length h) (snd (drop_highly_correlated_variables_h corr h r t)) = h"
  by (simp add: drop_highly_correlated_variables_h_def Let_def drop_h_frame split: sum.splits)

lemma drop_correlated_h_deref:
  "deref (drop_highly_correlated_variables_h corr h r t)
     = drop_highly_correlated_variables corr (h ! r) t"
  by (simp add: drop_highly_correlated_variables_h_def drop_highly_correlated_variables_def
        Let_def drop_h_deref split: sum.splits)
     (simp add: deref_def)


lemma drop_missing_h_frame:
  "take (length h) (snd (drop_columns_with_high_missing_values_h h r t)) = h"
  by (simp add: drop_columns_with_high_missing_values_h_def drop_h_frame)

lemma drop_missing_h_deref:
  "deref (drop_columns_with_high_missing_values_h h r t)
     = drop_columns_with_high_missing_values (h ! r) t"
  by (simp add: drop_columns_with_high_missing_values_h_def
        drop_columns_with_high_missing_values_def drop_h_deref)

lemma nth_of_frame:
  assumes "take (length h) h' = h" "r < length h"
  shows "h' ! r = h ! r"
proof -
  from assms(2) have "take (length h) h' ! r = h' ! r" by (rule nth_take)
  with assms(1) show ?thesis by simp
qed

text \<open>
  Claim C8. Every function leaves the DataFrame object it is given as it was. For a
  heap \<open>h\<close> and a reference \<open>dataframe\<close> to one of its objects, the heap after the call
  begins with the objects of \<open>h\<close>, unchanged (the call only adds objects), so the object
  at \<open>dataframe\<close> holds the same columns, cells and order as before; this holds also when
  the call raises. The table the call returns, read from the new heap, is the one the
  function computes from the table at \<open>dataframe\<close>. \<open>find_missing_values\<close> does not
  change the heap at all; \<open>label_encode_categorical_variables\<close> assigns only to the
  columns of its copy.
\<close>

theorem input_table_unmodified:
  assumes "dataframe < length h"
  shows "find_missing_values_h h dataframe = (find_missing_values (h ! dataframe), h)
   \<and> take (length h) (snd (drop_columns_with_high_missing_values_h h dataframe t)) = h
   \<and> snd (drop_columns_with_high_missing_values_h h dataframe t) ! dataframe = h ! dataframe
   \<and> deref (drop_columns_with_high_missing_values_h h dataframe t)
        = drop_columns_with_high_missing_values (h ! dataframe) t
   \<and> take (length h) (snd (separate_categorical_numerical_h h dataframe)) = h
   \<and> snd (separate_categorical_numerical_h h dataframe) ! dataframe = h ! dataframe
   \<and> (snd (separate_categorical_numerical_h h dataframe)
          ! fst (fst (separate_categorical_numerical_h h dataframe)),
        snd (separate_categorical_numerical_h h dataframe)
          ! snd (fst (separate_categorical_numerical_h h dataframe)))
        = separate_categorical_numerical (h ! dataframe)
   \<and> take (length h) (snd (label_encode_categorical_variables_h h dataframe L)) = h
   \<and> snd (label_encode_categorical_variables_h h dataframe L) ! dataframe = h ! dataframe
   \<and> deref (label_encode_categorical_variables_h h dataframe L)
        = label_encode_categorical_variables (h ! dataframe) L
   \<and> take (length h) (snd (drop_highly_correlated_variables_h corr h dataframe t')) = h
   \<and> snd (drop_highly_correlated_variables_h corr h dataframe t') ! dataframe = h ! dataframe
   \<and> deref (drop_highly_correlated_variables_h corr h dataframe t')
        = drop_highly_correlated_variables corr (h ! dataframe) t'"
proof (intro conjI)
  show "find_missing_values_h h dataframe = (find_missing_values (h ! dataframe), h)"
    by (simp add: find_missing_values_h_def)
  show a: "take (length h) (snd (drop_columns_with_high_missing_values_h h dataframe t)) = h"
    by (rule drop_missing_h_frame)
  show "snd (drop_columns_with_high_missing_values_h h dataframe t) ! dataframe = h ! dataframe"
    using a assms by (rule nth_of_frame)
  show "deref (drop_columns_with_high_missing_values_h h dataframe t)
        = drop_columns_with_high_missing_values (h ! dataframe) t"
    by (rule drop_missing_h_deref)
  show b: "take (length h) (snd (separate_categorical_numerical_h h dataframe)) = h"
    by (rule separate_h_frame)
  show "snd (separate_categorical_numerical_h h dataframe) ! dataframe = h ! dataframe"
    using b assms by (rule nth_of_frame)
  show "(snd (separate_categorical_numerical_h h dataframe)
          ! fst (fst (separate_categorical_numerical_h h dataframe)),
        snd (separate_categorical_numerical_h h dataframe)
          ! snd (fst (separate_categorical_numerical_h h dataframe)))
        = separate_categorical_numerical (h ! dataframe)"
    using assms by (rule separate_h_deref)
  show c: "take (length h) (snd (label_encode_categorical_variables_h h dataframe L)) = h"
    by (rule label_encode_h_frame)
  show "snd (label_encode_categorical_variables_h h dataframe L) ! dataframe = h ! dataframe"
    using c assms by (rule nth_of_frame)
  show "deref (label_encode_categorical_variables_h h dataframe L)
        = label_encode_categorical_variables (h ! dataframe) L"
    by (rule label_encode_h_deref)
  show d: "take (length h) (snd (drop_highly_correlated_variables_h corr h dataframe t')) = h"
    by (rule drop_correlated_h_frame)
  show "snd (drop_highly_correlated_variables_h corr h dataframe t') ! dataframe = h ! dataframe"
    using d assms by (rule nth_of_frame)
  show "deref (drop_highly_correlated_variables_h corr h dataframe t')
        = drop_highly_correlated_variables corr (h ! dataframe) t'"
    by (rule drop_correlated_h_deref)
qed

theorem input_table_unmodified_witness:
  "(0::nat) < length [example_missing]
   \<and> snd (label_encode_categorical_variables_h [example_missing] 0 [''B'', ''C'']) ! 0
       = example_missing
   \<and> deref (label_encode_categorical_variables_h [example_missing] 0 [''B'', ''C'']) =
       Inr \<lparr>index = [0, 1, 2, 3],
            columns =
              [\<lparr>name = ''A'', data = Float64 [Some 1, Some 2, None, Some 4]\<rparr>,
               \<lparr>name = ''B'', data = Int64 [0, 1, 0, 2]\<rparr>]\<rparr>
   \<and> snd (drop_columns_with_high_missing_values_h [example_missing] 0 default_threshold) ! 0
       = example_missing
   \<and> deref (drop_columns_with_high_missing_values_h [example_missing] 0 default_threshold) =
       Inr \<lparr>index = [0, 1, 2, 3],
            columns = [\<lparr>name = ''B'',
                        data = Object [Some ''x'', Some ''y'', Some ''x'', Some ''z'']\<rparr>]\<rparr>"
proof -
  have l: "(0::nat) < length [example_missing]" by simp
  note t = input_table_unmodified[OF l, of default_threshold "[''B'', ''C'']"]
  from t have a: "snd (label_encode_categorical_variables_h [example_missing] 0 [''B'', ''C'']) ! 0
       = example_missing"
    and b: "deref (label_encode_categorical_variables_h [example_missing] 0 [''B'', ''C''])
       = label_encode_categorical_variables example_missing [''B'', ''C'']"
    and c: "snd (drop_columns_with_high_missing_values_h [example_missing] 0 default_threshold) ! 0
       = example_missing"
    and d: "deref (drop_columns_with_high_missing_values_h [example_missing] 0 default_threshold)
       = drop_columns_with_high_missing_values example_missing default_threshold"
    by simp_all
  from l a b c d show ?thesis
    by (simp only: label_encode_example drop_missing_example simp_thms)
qed

end
